theory Spec2Isabelle
  imports Complex_Main
begin

section \<open>The head-dependent flow boundary observation package (mfflwob.py)\<close>

text \<open>
  A shallow embedding of the class \<^verbatim>\<open>ModflowFlwob\<close>: its constructor and its
  \<^verbatim>\<open>write_file\<close> method.

  \<^item> Python exceptions are values of \<open>py_error\<close>; a function that can raise returns
    \<open>py_error + 'a\<close>, with \<open>Inl\<close> for the exception.
  \<^item> Integers are \<open>int\<close>. The numpy arrays of dtype int32 are lists of \<open>int\<close>: the
    embedding covers integer inputs that fit the dtype, where storing is the identity
    (and not the least int32, whose \<^verbatim>\<open>abs\<close> wraps).
  \<^item> Floating point numbers are kept abstract: the type variable \<open>'f\<close>, of which only
    the constants \<open>0\<close> (what \<^verbatim>\<open>np.zeros\<close> stores) and \<open>1\<close> (the factor \<^verbatim>\<open>1.0\<close>) are used.
    Rounding to float32 and the text rendering of floats are not modelled.
  \<^item> A two-dimensional numpy array is a list of rows.
  \<^item> Strings are byte strings; \<^verbatim>\<open>upper\<close> and \<^verbatim>\<open>strip\<close> are modelled on ASCII.
  \<^item> \<^verbatim>\<open>Package.__init__\<close> and the parent model live in other modules. The constructor
    of \<^verbatim>\<open>Package\<close> stores the extension, name and unit number lists it is given; the
    file path \<^verbatim>\<open>fn_path\<close> it derives from the parent model is a parameter here.
    Registration with the parent (\<^verbatim>\<open>add_package\<close>) has no effect on the encoder.
\<close>

subsection \<open>Exceptions and basic Python operations\<close>

datatype py_error = AttributeError | UnboundLocalError | ValueError | IndexError

text \<open>\<^verbatim>\<open>xs[i]\<close> for an index \<open>i \<ge> 0\<close>.\<close>

definition getitem :: "'a list \<Rightarrow> nat \<Rightarrow> py_error + 'a" where
  "getitem xs i = (if i < length xs then Inr (xs ! i) else Inl IndexError)"

text \<open>\<^verbatim>\<open>m[i, j]\<close> on a two-dimensional array, for indices \<open>i, j \<ge> 0\<close>.\<close>

definition getitem2 :: "'a list list \<Rightarrow> nat \<Rightarrow> nat \<Rightarrow> py_error + 'a" where
  "getitem2 m i j =
     (if i < length m \<and> j < length (m ! i) then Inr (m ! i ! j) else Inl IndexError)"

text \<open>\<^verbatim>\<open>xs[a:b]\<close> for constants \<open>0 \<le> a \<le> b\<close>: a slice never raises.\<close>

definition slice :: "'a list \<Rightarrow> nat \<Rightarrow> nat \<Rightarrow> 'a list" where
  "slice xs a b = take (b - a) (drop a xs)"

text \<open>\<^verbatim>\<open>max(xs)\<close> on a list of integers: \<^verbatim>\<open>ValueError\<close> on the empty list.\<close>

definition py_max :: "int list \<Rightarrow> py_error + int" where
  "py_max xs = (case xs of [] \<Rightarrow> Inl ValueError | y # ys \<Rightarrow> Inr (fold max ys y))"

text \<open>\<^verbatim>\<open>str.upper\<close> and \<^verbatim>\<open>str.strip\<close> on ASCII.\<close>

definition upper_char :: "char \<Rightarrow> char" where
  "upper_char c =
     (case map_of (zip ''abcdefghijklmnopqrstuvwxyz'' ''ABCDEFGHIJKLMNOPQRSTUVWXYZ'') c of
        Some u \<Rightarrow> u
      | None \<Rightarrow> c)"

definition upper :: "string \<Rightarrow> string" where
  "upper s = map upper_char s"

definition is_space :: "char \<Rightarrow> bool" where
  "is_space c \<longleftrightarrow>
     c \<in> set [CHR 0x09, CHR 0x0A, CHR 0x0B, CHR 0x0C, CHR 0x0D,
               CHR 0x1C, CHR 0x1D, CHR 0x1E, CHR 0x1F, CHR '' '']"

definition strip :: "string \<Rightarrow> string" where
  "strip s = rev (dropWhile is_space (rev (dropWhile is_space s)))"

text \<open>\<^verbatim>\<open>'%s' % n\<close> for an integer: its decimal digits, with a sign when negative.\<close>

fun str_nat :: "nat \<Rightarrow> string" where
  "str_nat n =
     (if n < 10 then [''0123456789'' ! n]
      else str_nat (n div 10) @ [''0123456789'' ! (n mod 10)])"

declare str_nat.simps [simp del]

definition str_int :: "int \<Rightarrow> string" where
  "str_int i = (if i < 0 then CHR ''-'' # str_nat (nat (- i)) else str_nat (nat i))"

definition newline :: string where
  "newline = [CHR 0x0A]"

subsection \<open>numpy allocation and assignment\<close>

text \<open>
  \<^verbatim>\<open>np.zeros((n, w))\<close> and \<^verbatim>\<open>np.zeros((n))\<close>: a negative dimension raises
  \<^verbatim>\<open>ValueError\<close>.
\<close>

definition zeros2 :: "int \<Rightarrow> int \<Rightarrow> 'a \<Rightarrow> py_error + 'a list list" where
  "zeros2 n w z =
     (if n < 0 \<or> w < 0 then Inl ValueError else Inr (replicate (nat n) (replicate (nat w) z)))"

definition zeros1 :: "int \<Rightarrow> 'a \<Rightarrow> py_error + 'a list" where
  "zeros1 n z = (if n < 0 then Inl ValueError else Inr (replicate (nat n) z))"

text \<open>
  \<^verbatim>\<open>dst[:] = src\<close> for a one-dimensional array \<open>dst\<close> and a list \<open>src\<close>: the lengths
  agree, or \<open>src\<close> has one element, which numpy broadcasts to every position;
  anything else raises \<^verbatim>\<open>ValueError\<close>.
\<close>

definition assign_all :: "'a list \<Rightarrow> 'a list \<Rightarrow> py_error + 'a list" where
  "assign_all dst src =
     (if length src = length dst then Inr src
      else if length src = 1 then Inr (replicate (length dst) (hd src))
      else Inl ValueError)"

text \<open>
  \<^verbatim>\<open>dst[:len(src)] = src\<close> for a row \<open>dst\<close>: the slice is clipped to the row, so it
  has \<open>min (length src) (length dst)\<close> positions. The assignment succeeds when \<open>src\<close>
  fits, and when \<open>src\<close> has one element (broadcast; this is only new for a row of
  width 0, where nothing is stored); otherwise numpy raises \<^verbatim>\<open>ValueError\<close>.
\<close>

definition assign_prefix :: "'a list \<Rightarrow> 'a list \<Rightarrow> py_error + 'a list" where
  "assign_prefix dst src =
     (if length src \<le> length dst then Inr (src @ drop (length src) dst)
      else if length src = 1 then Inr dst
      else Inl ValueError)"

text \<open>\<^verbatim>\<open>m[i, :len(src[i])] = src[i]\<close>, for the ragged list of lists \<open>src\<close>.\<close>

definition assign_row :: "'a list list \<Rightarrow> 'a list list \<Rightarrow> nat \<Rightarrow> py_error + 'a list list" where
  "assign_row m src i =
     (case getitem src i of
        Inl err \<Rightarrow> Inl err
      | Inr s \<Rightarrow>
          (case getitem m i of
             Inl err \<Rightarrow> Inl err
           | Inr r \<Rightarrow>
               (case assign_prefix r s of
                  Inl err \<Rightarrow> Inl err
                | Inr r' \<Rightarrow> Inr (m[i := r']))))"

subsection \<open>The encoder and its constructor\<close>

record 'f encoder =
  name :: "string list"
  extension :: "string list"
  unit_number :: "int list"
  fn_path :: string
  url :: string
  heading :: string
  nqfb :: int
  nqcfb :: int
  nqtfb :: int
  iufbobsv :: int
  tomultfb :: 'f
  nqobfb :: "int list"
  nqclfb :: "int list"
  obsnam :: "string list"
  irefsp :: "int list"
  toffset :: "'f list"
  flwobs :: "'f list"
  layer :: "int list list"
  row :: "int list list"
  column :: "int list list"
  factor :: "'f list list"

text \<open>The arguments of \<^verbatim>\<open>__init__\<close>; \<open>arg_flowtype = None\<close> is Python's \<^verbatim>\<open>None\<close>.\<close>

record 'f init_args =
  arg_nqfb :: int
  arg_nqcfb :: int
  arg_nqtfb :: int
  arg_iufbobsv :: int
  arg_tomultfb :: 'f
  arg_nqobfb :: "int list"
  arg_nqclfb :: "int list"
  arg_obsnam :: "string list"
  arg_irefsp :: "int list"
  arg_toffset :: "'f list"
  arg_flwobs :: "'f list"
  arg_layer :: "int list list"
  arg_row :: "int list list"
  arg_column :: "int list list"
  arg_factor :: "'f list list"
  arg_flowtype :: "string option"
  arg_extension :: "string list"
  arg_unitnumber :: "int list"

definition default_extension :: "string list" where
  "default_extension =
     [''chob'', ''obc'', ''gbob'', ''obg'', ''drob'', ''obd'', ''rvob'', ''obr'']"

definition default_unitnumber :: "int list" where
  "default_unitnumber = [40, 140, 41, 141, 42, 142, 43, 143]"

text \<open>
  Lines 92 to 120: the chain of comparisons on \<^verbatim>\<open>flowtype.upper().strip()\<close>.
  \<^verbatim>\<open>None\<close> has no method \<^verbatim>\<open>upper\<close> (\<^verbatim>\<open>AttributeError\<close>). Each branch slices the
  tables and reads \<^verbatim>\<open>unitnumber[1]\<close> of the slice (\<^verbatim>\<open>IndexError\<close> when the slice is
  shorter). The chain has no \<^verbatim>\<open>else\<close>: when no branch matches, \<^verbatim>\<open>name\<close> is never
  bound, and the call of \<^verbatim>\<open>Package.__init__\<close> on line 122, which reads it, raises
  \<^verbatim>\<open>UnboundLocalError\<close>.
\<close>

record flow_meta =
  meta_name :: "string list"
  meta_extension :: "string list"
  meta_unitnumber :: "int list"
  meta_iufbobsv :: int
  meta_url :: string
  meta_heading :: string

definition branch :: "string list \<Rightarrow> string list \<Rightarrow> int list \<Rightarrow> nat \<Rightarrow> string \<Rightarrow> string
    \<Rightarrow> py_error + flow_meta" where
  "branch nm ext un k u h =
     (case getitem (slice un k (k + 2)) 1 of
        Inl err \<Rightarrow> Inl err
      | Inr iu \<Rightarrow>
          Inr \<lparr>meta_name = nm, meta_extension = slice ext k (k + 2),
               meta_unitnumber = slice un k (k + 2), meta_iufbobsv = iu,
               meta_url = u, meta_heading = h\<rparr>)"

definition select_flowtype :: "string option \<Rightarrow> string list \<Rightarrow> int list \<Rightarrow> py_error + flow_meta" where
  "select_flowtype flowtype ext un =
     (case flowtype of
        None \<Rightarrow> Inl AttributeError
      | Some t \<Rightarrow>
          if strip (upper t) = ''CHD'' then
            branch [''CHOB'', ''DATA''] ext un 0 ''chob.htm''
              ''# CHOB for MODFLOW, generated by Flopy.''
          else if strip (upper t) = ''GHB'' then
            branch [''GBOB'', ''DATA''] ext un 2 ''gbob.htm''
              ''# GBOB for MODFLOW, generated by Flopy.''
          else if strip (upper t) = ''DRN'' then
            branch [''DROB'', ''DATA''] ext un 4 ''drob.htm''
              ''# DROB for MODFLOW, generated by Flopy.''
          else if strip (upper t) = ''RIV'' then
            branch [''RVOB'', ''DATA''] ext un 6 ''rvob.htm''
              ''# RVOB for MODFLOW, generated by Flopy.''
          else Inl UnboundLocalError)"

text \<open>
  Lines 161 to 165: the loop that copies the ragged cell lists into the padded
  arrays, one group at a time: layer, row, column, factor.
\<close>

fun assign_rows :: "'f init_args \<Rightarrow> 'f encoder \<Rightarrow> nat list \<Rightarrow> py_error + 'f encoder" where
  "assign_rows a e [] = Inr e"
| "assign_rows a e (i # is) =
     (case assign_row (layer e) (arg_layer a) i of
        Inl err \<Rightarrow> Inl err
      | Inr l \<Rightarrow>
     (case assign_row (row e) (arg_row a) i of
        Inl err \<Rightarrow> Inl err
      | Inr r \<Rightarrow>
     (case assign_row (column e) (arg_column a) i of
        Inl err \<Rightarrow> Inl err
      | Inr c \<Rightarrow>
     (case assign_row (factor e) (arg_factor a) i of
        Inl err \<Rightarrow> Inl err
      | Inr f \<Rightarrow>
          assign_rows a (e\<lparr>layer := l, row := r, column := c, factor := f\<rparr>) is))))"

text \<open>
  \<^verbatim>\<open>__init__\<close>. The padded width is \<^verbatim>\<open>max(self.nqclfb)\<close>, the maximum of the signed
  flags as given. \<^verbatim>\<open>self.obsnam[:] = obsnam\<close> assigns a Python list to itself and
  checks nothing.
\<close>

definition construct :: "string \<Rightarrow> ('f::zero) init_args \<Rightarrow> py_error + 'f encoder" where
  "construct path a =
     (case select_flowtype (arg_flowtype a) (arg_extension a) (arg_unitnumber a) of
        Inl err \<Rightarrow> Inl err
      | Inr m \<Rightarrow>
     (case py_max (arg_nqclfb a) of
        Inl err \<Rightarrow> Inl err
      | Inr w \<Rightarrow>
     (case zeros2 (arg_nqfb a) w (0::int) of
        Inl err \<Rightarrow> Inl err
      | Inr zi \<Rightarrow>
     (case zeros2 (arg_nqfb a) w (0::'f) of
        Inl err \<Rightarrow> Inl err
      | Inr zf \<Rightarrow>
     (case zeros1 (arg_nqfb a) (0::int) of
        Inl err \<Rightarrow> Inl err
      | Inr zg \<Rightarrow>
     (case zeros1 (arg_nqtfb a) (0::int) of
        Inl err \<Rightarrow> Inl err
      | Inr zti \<Rightarrow>
     (case zeros1 (arg_nqtfb a) (0::'f) of
        Inl err \<Rightarrow> Inl err
      | Inr ztf \<Rightarrow>
     (case assign_all zg (arg_nqobfb a) of
        Inl err \<Rightarrow> Inl err
      | Inr ob \<Rightarrow>
     (case assign_all zg (arg_nqclfb a) of
        Inl err \<Rightarrow> Inl err
      | Inr cl \<Rightarrow>
     (case assign_all zti (arg_irefsp a) of
        Inl err \<Rightarrow> Inl err
      | Inr ir \<Rightarrow>
     (case assign_all ztf (arg_toffset a) of
        Inl err \<Rightarrow> Inl err
      | Inr tof \<Rightarrow>
     (case assign_all ztf (arg_flwobs a) of
        Inl err \<Rightarrow> Inl err
      | Inr fl \<Rightarrow>
          assign_rows a
            \<lparr>name = meta_name m, extension = meta_extension m,
             unit_number = meta_unitnumber m, fn_path = path,
             url = meta_url m, heading = meta_heading m,
             nqfb = arg_nqfb a, nqcfb = arg_nqcfb a, nqtfb = arg_nqtfb a,
             iufbobsv = meta_iufbobsv m, tomultfb = arg_tomultfb a,
             nqobfb = ob, nqclfb = cl, obsnam = arg_obsnam a,
             irefsp = ir, toffset = tof, flwobs = fl,
             layer = zi, row = zi, column = zi, factor = zf\<rparr>
            [0..<nat (arg_nqfb a)]))))))))))))"

subsection \<open>Writing the package file and the instruction file\<close>

text \<open>
  A file is the list of the records written to it, one per call of \<^verbatim>\<open>write\<close>.
  A record of the primary file carries the arguments of its format string in
  order; the fixed-width rendering of the numbers is not modelled. The records
  of the instruction file are the strings written.
\<close>

datatype 'f line =
    Heading string
  | Section1 int int int int
  | Section2 'f
  | Section3 int int
  | Section4 string int 'f 'f
  | Section5 int int int 'f

text \<open>
  Lines 202 to 209: the loop over the observation times of one group. The first
  argument is the number of iterations left, the second the cursor \<^verbatim>\<open>c\<close>; the
  cursor is returned with the records.
\<close>

fun write_obs :: "'f encoder \<Rightarrow> nat \<Rightarrow> nat \<Rightarrow> py_error + ('f line list \<times> nat)" where
  "write_obs e 0 c = Inr ([], c)"
| "write_obs e (Suc n) c =
     (case getitem (obsnam e) c of
        Inl err \<Rightarrow> Inl err
      | Inr nm \<Rightarrow>
     (case getitem (irefsp e) c of
        Inl err \<Rightarrow> Inl err
      | Inr ir \<Rightarrow>
     (case getitem (toffset e) c of
        Inl err \<Rightarrow> Inl err
      | Inr tof \<Rightarrow>
     (case getitem (flwobs e) c of
        Inl err \<Rightarrow> Inl err
      | Inr fl \<Rightarrow>
     (case write_obs e n (Suc c) of
        Inl err \<Rightarrow> Inl err
      | Inr (ls, c') \<Rightarrow> Inr (Section4 nm ir tof fl # ls, c'))))))"

text \<open>\<^verbatim>\<open>self.factor[i, :] = 1.0\<close>: the whole padded row of group \<open>i\<close>.\<close>

definition set_factor_row :: "('f::one) encoder \<Rightarrow> nat \<Rightarrow> py_error + 'f encoder" where
  "set_factor_row e i =
     (if i < length (factor e)
      then Inr (e\<lparr>factor := (factor e)[i := replicate (length (factor e ! i)) 1]\<rparr>)
      else Inl IndexError)"

text \<open>
  Lines 212 to 220: the loop over the cells of group \<open>i\<close>, on the list of the
  values of \<^verbatim>\<open>j\<close>. The encoder is returned with the records, since the loop
  assigns to \<^verbatim>\<open>self.factor\<close>.
\<close>

fun write_cells :: "('f::one) encoder \<Rightarrow> nat \<Rightarrow> nat list \<Rightarrow> py_error + ('f line list \<times> 'f encoder)" where
  "write_cells e i [] = Inr ([], e)"
| "write_cells e i (j # js) =
     (case getitem (nqclfb e) i of
        Inl err \<Rightarrow> Inl err
      | Inr q \<Rightarrow>
     (case (if q < 0 then set_factor_row e i else Inr e) of
        Inl err \<Rightarrow> Inl err
      | Inr e1 \<Rightarrow>
     (case getitem2 (layer e1) i j of
        Inl err \<Rightarrow> Inl err
      | Inr l \<Rightarrow>
     (case getitem2 (row e1) i j of
        Inl err \<Rightarrow> Inl err
      | Inr r \<Rightarrow>
     (case getitem2 (column e1) i j of
        Inl err \<Rightarrow> Inl err
      | Inr cl \<Rightarrow>
     (case getitem2 (factor e1) i j of
        Inl err \<Rightarrow> Inl err
      | Inr f \<Rightarrow>
     (case write_cells e1 i js of
        Inl err \<Rightarrow> Inl err
      | Inr (ls, e2) \<Rightarrow> Inr (Section5 l r cl f # ls, e2))))))))"

text \<open>One iteration of the loop over the groups (lines 195 to 220).\<close>

definition write_group :: "('f::one) encoder \<Rightarrow> nat \<Rightarrow> nat
    \<Rightarrow> py_error + ('f line list \<times> nat \<times> 'f encoder)" where
  "write_group e i c =
     (case getitem (nqobfb e) i of
        Inl err \<Rightarrow> Inl err
      | Inr nob \<Rightarrow>
     (case getitem (nqclfb e) i of
        Inl err \<Rightarrow> Inl err
      | Inr ncl \<Rightarrow>
     (case write_obs e (nat nob) c of
        Inl err \<Rightarrow> Inl err
      | Inr (ols, c1) \<Rightarrow>
     (case write_cells e i [0..<nat \<bar>ncl\<bar>] of
        Inl err \<Rightarrow> Inl err
      | Inr (cls, e1) \<Rightarrow> Inr (Section3 nob ncl # ols @ cls, c1, e1)))))"

fun write_groups :: "('f::one) encoder \<Rightarrow> nat list \<Rightarrow> nat
    \<Rightarrow> py_error + ('f line list \<times> nat \<times> 'f encoder)" where
  "write_groups e [] c = Inr ([], c, e)"
| "write_groups e (i # is) c =
     (case write_group e i c of
        Inl err \<Rightarrow> Inl err
      | Inr (gls, c1, e1) \<Rightarrow>
     (case write_groups e1 is c1 of
        Inl err \<Rightarrow> Inl err
      | Inr (ls, c2, e2) \<Rightarrow> Inr (gls @ ls, c2, e2)))"

text \<open>Lines 232 to 234: one name per record, read by index.\<close>

fun write_names :: "string list \<Rightarrow> nat list \<Rightarrow> py_error + string list" where
  "write_names nms [] = Inr []"
| "write_names nms (i # is) =
     (case getitem nms i of
        Inl err \<Rightarrow> Inl err
      | Inr nm \<Rightarrow>
     (case write_names nms is of
        Inl err \<Rightarrow> Inl err
      | Inr ls \<Rightarrow> Inr ((nm @ newline) # ls)))"

text \<open>
  \<^verbatim>\<open>write_file\<close>: the encoder after the call and the two files. An exception
  gives \<open>Inl\<close>; what was written before it is not kept in the model.
\<close>

record 'f written =
  encoder_after :: "'f encoder"
  primary_path :: string
  primary_lines :: "'f line list"
  ins_path :: string
  ins_lines :: "string list"

definition write_file :: "('f::one) encoder \<Rightarrow> py_error + 'f written" where
  "write_file e =
     (case write_groups e [0..<nat (nqfb e)] 0 of
        Inl err \<Rightarrow> Inl err
      | Inr (gls, c, e1) \<Rightarrow>
     (case write_names (obsnam e1) [0..<nat (nqtfb e1)] of
        Inl err \<Rightarrow> Inl err
      | Inr nls \<Rightarrow>
          Inr \<lparr>encoder_after = e1,
               primary_path = fn_path e,
               primary_lines =
                 Heading (heading e)
                 # Section1 (nqfb e) (nqcfb e) (nqtfb e) (iufbobsv e)
                 # Section2 (tomultfb e)
                 # gls,
               ins_path = fn_path e1 @ ''_ins'',
               ins_lines =
                 (''jif @'' @ newline)
                 # (''StandardFile 0 1 '' @ str_int (nqtfb e1) @ newline)
                 # nls\<rparr>))"

subsection \<open>What a successful call writes\<close>

text \<open>
  The records of a successful call in closed form, as functions of the encoder
  before the call: these definitions are not part of the program, they state
  what it writes. \<open>obs_line e k\<close> is the observation record of the flattened
  index \<open>k\<close>, \<open>cell_line e i j\<close> the record of cell \<open>j\<close> of group \<open>i\<close>,
  \<open>group_lines e i c\<close> the block of group \<open>i\<close> when the cursor stands at \<open>c\<close>,
  \<open>groups_lines\<close> the blocks of a list of groups one after the other and
  \<open>group_blocks\<close> the same blocks kept apart.
\<close>

definition obs_line :: "'f encoder \<Rightarrow> nat \<Rightarrow> 'f line" where
  "obs_line e k = Section4 (obsnam e ! k) (irefsp e ! k) (toffset e ! k) (flwobs e ! k)"

definition cell_line :: "('f::one) encoder \<Rightarrow> nat \<Rightarrow> nat \<Rightarrow> 'f line" where
  "cell_line e i j =
     Section5 (layer e ! i ! j) (row e ! i ! j) (column e ! i ! j)
       (if nqclfb e ! i < 0 then 1 else factor e ! i ! j)"

definition obs_count :: "'f encoder \<Rightarrow> nat \<Rightarrow> nat" where
  "obs_count e i = nat (nqobfb e ! i)"

definition cell_count :: "'f encoder \<Rightarrow> nat \<Rightarrow> nat" where
  "cell_count e i = nat \<bar>nqclfb e ! i\<bar>"

definition group_lines :: "('f::one) encoder \<Rightarrow> nat \<Rightarrow> nat \<Rightarrow> 'f line list" where
  "group_lines e i c =
     Section3 (nqobfb e ! i) (nqclfb e ! i)
     # map (obs_line e) [c..<c + obs_count e i]
     @ map (cell_line e i) [0..<cell_count e i]"

fun groups_lines :: "('f::one) encoder \<Rightarrow> nat list \<Rightarrow> nat \<Rightarrow> 'f line list" where
  "groups_lines e [] c = []"
| "groups_lines e (i # is) c = group_lines e i c @ groups_lines e is (c + obs_count e i)"

fun group_blocks :: "('f::one) encoder \<Rightarrow> nat list \<Rightarrow> nat \<Rightarrow> 'f line list list" where
  "group_blocks e [] c = []"
| "group_blocks e (i # is) c = group_lines e i c # group_blocks e is (c + obs_count e i)"

definition obs_total :: "'f encoder \<Rightarrow> nat list \<Rightarrow> nat" where
  "obs_total e is = sum_list (map (obs_count e) is)"

definition groups :: "'f encoder \<Rightarrow> nat list" where
  "groups e = [0..<nat (nqfb e)]"

definition header_lines :: "'f encoder \<Rightarrow> 'f line list" where
  "header_lines e =
     [Heading (heading e), Section1 (nqfb e) (nqcfb e) (nqtfb e) (iufbobsv e),
      Section2 (tomultfb e)]"

definition ins_header :: "'f encoder \<Rightarrow> string list" where
  "ins_header e = [''jif @'' @ newline, ''StandardFile 0 1 '' @ str_int (nqtfb e) @ newline]"

text \<open>
  The factor array after the groups \<open>is\<close> have been written, and the encoder
  after a call.
\<close>

definition reset_row :: "int list \<Rightarrow> nat \<Rightarrow> ('f::one) list list \<Rightarrow> 'f list list" where
  "reset_row q i f = (if q ! i < 0 then f[i := replicate (length (f ! i)) 1] else f)"

definition reset_rows :: "int list \<Rightarrow> nat list \<Rightarrow> ('f::one) list list \<Rightarrow> 'f list list" where
  "reset_rows q is f = fold (reset_row q) is f"

definition after_write :: "('f::one) encoder \<Rightarrow> 'f encoder" where
  "after_write e = e\<lparr>factor := reset_rows (nqclfb e) (groups e) (factor e)\<rparr>"

subsection \<open>Conditions on encoders and on inputs\<close>

text \<open>
  \<open>writable\<close>: no read of \<^verbatim>\<open>write_file\<close> leaves its array. Every group has its
  two counts and its cells within the padded rows, the flattened arrays hold the
  records the groups consume, and \<open>obsnam\<close> holds \<open>nqtfb\<close> names.
\<close>

definition cells_fit :: "'a list list \<Rightarrow> nat \<Rightarrow> nat \<Rightarrow> bool" where
  "cells_fit m i n \<longleftrightarrow> i < length m \<and> n \<le> length (m ! i)"

definition group_ok :: "'f encoder \<Rightarrow> nat \<Rightarrow> bool" where
  "group_ok e i \<longleftrightarrow>
     i < length (nqobfb e) \<and> i < length (nqclfb e) \<and>
     cells_fit (layer e) i (cell_count e i) \<and> cells_fit (row e) i (cell_count e i) \<and>
     cells_fit (column e) i (cell_count e i) \<and> cells_fit (factor e) i (cell_count e i)"

definition obs_fit :: "'f encoder \<Rightarrow> nat \<Rightarrow> bool" where
  "obs_fit e n \<longleftrightarrow>
     n \<le> length (obsnam e) \<and> n \<le> length (irefsp e) \<and>
     n \<le> length (toffset e) \<and> n \<le> length (flwobs e)"

definition writable :: "'f encoder \<Rightarrow> bool" where
  "writable e \<longleftrightarrow>
     list_all (group_ok e) [0..<nat (nqfb e)] \<and>
     obs_fit e (obs_total e [0..<nat (nqfb e)]) \<and>
     nat (nqtfb e) \<le> length (obsnam e)"

text \<open>
  The counts of an encoder agree: one count per group, none negative, and their
  sum is \<open>nqtfb\<close>.
\<close>

definition counts_agree :: "'f encoder \<Rightarrow> bool" where
  "counts_agree e \<longleftrightarrow>
     length (nqobfb e) = nat (nqfb e) \<and> list_all (\<lambda>n. 0 \<le> n) (nqobfb e) \<and>
     sum_list (nqobfb e) = nqtfb e"

text \<open>
  The allocated width \<^verbatim>\<open>max(nqclfb)\<close> covers the cell count \<^verbatim>\<open>abs(nqclfb[i])\<close> of
  every group.
\<close>

definition width_covers :: "'f init_args \<Rightarrow> bool" where
  "width_covers a \<longleftrightarrow>
     (case py_max (arg_nqclfb a) of
        Inl err \<Rightarrow> False
      | Inr w \<Rightarrow> list_all (\<lambda>q. \<bar>q\<bar> \<le> w) (arg_nqclfb a))"

subsection \<open>Reading a primary file back\<close>

text \<open>
  Which records are observation records, cell records and group headers; the
  name of an observation record and the factor of a cell record.
\<close>

fun is_obs :: "'f line \<Rightarrow> bool" where
  "is_obs (Section4 nm ir tof fl) = True"
| "is_obs l = False"

fun is_cell :: "'f line \<Rightarrow> bool" where
  "is_cell (Section5 l r c f) = True"
| "is_cell l = False"

fun is_group_header :: "'f line \<Rightarrow> bool" where
  "is_group_header (Section3 nob ncl) = True"
| "is_group_header l = False"

fun obs_name :: "'f line \<Rightarrow> string option" where
  "obs_name (Section4 nm ir tof fl) = Some nm"
| "obs_name l = None"

fun cell_factor :: "'f line \<Rightarrow> 'f option" where
  "cell_factor (Section5 l r c f) = Some f"
| "cell_factor l = None"

text \<open>
  \<open>split_groups\<close> cuts a file before every group header: the records before the
  first header, and one block per header. \<open>group_blocks_of\<close> keeps the blocks.
\<close>

fun split_groups :: "'f line list \<Rightarrow> 'f line list \<times> 'f line list list" where
  "split_groups [] = ([], [])"
| "split_groups (l # ls) =
     (case split_groups ls of
        (pre, bs) \<Rightarrow> if is_group_header l then ([], (l # pre) # bs) else (l # pre, bs))"

definition group_blocks_of :: "'f line list \<Rightarrow> 'f line list list" where
  "group_blocks_of ls = snd (split_groups ls)"

subsection \<open>Sample inputs\<close>

text \<open>
  The documented defaults with a recognized tag.
\<close>

definition default_args :: "rat init_args" where
  "default_args =
     \<lparr>arg_nqfb = 0, arg_nqcfb = 0, arg_nqtfb = 0, arg_iufbobsv = 0, arg_tomultfb = 1,
      arg_nqobfb = [], arg_nqclfb = [], arg_obsnam = [], arg_irefsp = [],
      arg_toffset = [], arg_flwobs = [], arg_layer = [], arg_row = [],
      arg_column = [], arg_factor = [], arg_flowtype = Some ''CHD'',
      arg_extension = default_extension, arg_unitnumber = default_unitnumber\<rparr>"

text \<open>
  Two groups, the first with the flag \<open>-3\<close>, and three observations; the tag is
  in lower case with a trailing space. \<open>sample_encoder\<close> is what the constructor
  returns on \<open>sample_args\<close>, \<open>sample_written\<close> what \<^verbatim>\<open>write_file\<close> returns on it.
\<close>

definition sample_args :: "rat init_args" where
  "sample_args =
     \<lparr>arg_nqfb = 2, arg_nqcfb = 5, arg_nqtfb = 3, arg_iufbobsv = 0, arg_tomultfb = 1,
      arg_nqobfb = [2, 1], arg_nqclfb = [-3, 3], arg_obsnam = [''o1'', ''o2'', ''o3''],
      arg_irefsp = [1, 1, 2], arg_toffset = [0, 1, 0], arg_flwobs = [5, 6, 7],
      arg_layer = [[1, 1, 1], [2, 2, 2]], arg_row = [[1, 2, 3], [4, 5, 6]],
      arg_column = [[7, 8, 9], [1, 2, 3]],
      arg_factor = [[2 / 10, 5 / 10, 9 / 10], [1, 5 / 10, 0]],
      arg_flowtype = Some ''chd '', arg_extension = default_extension,
      arg_unitnumber = default_unitnumber\<rparr>"

definition sample_encoder :: "rat encoder" where
  "sample_encoder =
     \<lparr>name = [''CHOB'', ''DATA''], extension = [''chob'', ''obc''],
      unit_number = [40, 140], fn_path = ''model.chob'', url = ''chob.htm'',
      heading = ''# CHOB for MODFLOW, generated by Flopy.'',
      nqfb = 2, nqcfb = 5, nqtfb = 3, iufbobsv = 140, tomultfb = 1,
      nqobfb = [2, 1], nqclfb = [-3, 3], obsnam = [''o1'', ''o2'', ''o3''],
      irefsp = [1, 1, 2], toffset = [0, 1, 0], flwobs = [5, 6, 7],
      layer = [[1, 1, 1], [2, 2, 2]], row = [[1, 2, 3], [4, 5, 6]],
      column = [[7, 8, 9], [1, 2, 3]],
      factor = [[2 / 10, 5 / 10, 9 / 10], [1, 5 / 10, 0]]\<rparr>"

definition sample_written :: "rat written" where
  "sample_written =
     \<lparr>encoder_after = sample_encoder\<lparr>factor := [[1, 1, 1], [1, 5 / 10, 0]]\<rparr>,
      primary_path = ''model.chob'',
      primary_lines =
        [Heading ''# CHOB for MODFLOW, generated by Flopy.'',
         Section1 2 5 3 140, Section2 1,
         Section3 2 (- 3),
         Section4 ''o1'' 1 0 5, Section4 ''o2'' 1 1 6,
         Section5 1 1 7 1, Section5 1 2 8 1, Section5 1 3 9 1,
         Section3 1 3,
         Section4 ''o3'' 2 0 7,
         Section5 2 4 1 1, Section5 2 5 2 (5 / 10), Section5 2 6 3 0],
      ins_path = ''model.chob_ins'',
      ins_lines =
        [''jif @'' @ newline, ''StandardFile 0 1 3'' @ newline,
         ''o1'' @ newline, ''o2'' @ newline, ''o3'' @ newline]\<rparr>"

text \<open>
  An encoder of two groups, of two and of five cells, and what \<^verbatim>\<open>write_file\<close>
  returns on it.
\<close>

definition two_five_encoder :: "rat encoder" where
  "two_five_encoder =
     \<lparr>name = [''DROB'', ''DATA''], extension = [''drob'', ''obd''],
      unit_number = [42, 142], fn_path = ''model.drob'', url = ''drob.htm'',
      heading = ''# DROB for MODFLOW, generated by Flopy.'',
      nqfb = 2, nqcfb = 7, nqtfb = 2, iufbobsv = 142, tomultfb = 1,
      nqobfb = [1, 1], nqclfb = [2, 5], obsnam = [''d1'', ''d2''],
      irefsp = [1, 1], toffset = [0, 0], flwobs = [3, 4],
      layer = [[1, 1, 0, 0, 0], [2, 2, 2, 2, 2]],
      row = [[1, 2, 0, 0, 0], [1, 2, 3, 4, 5]],
      column = [[3, 4, 0, 0, 0], [6, 7, 8, 9, 10]],
      factor = [[5 / 10, 5 / 10, 0, 0, 0], [1, 1, 1, 1, 1]]\<rparr>"

definition two_five_written :: "rat written" where
  "two_five_written =
     \<lparr>encoder_after = two_five_encoder,
      primary_path = ''model.drob'',
      primary_lines =
        [Heading ''# DROB for MODFLOW, generated by Flopy.'',
         Section1 2 7 2 142, Section2 1,
         Section3 1 2,
         Section4 ''d1'' 1 0 3,
         Section5 1 1 3 (5 / 10), Section5 1 2 4 (5 / 10),
         Section3 1 5,
         Section4 ''d2'' 1 0 4,
         Section5 2 1 6 1, Section5 2 2 7 1, Section5 2 3 8 1, Section5 2 4 9 1,
         Section5 2 5 10 1],
      ins_path = ''model.drob_ins'',
      ins_lines =
        [''jif @'' @ newline, ''StandardFile 0 1 2'' @ newline,
         ''d1'' @ newline, ''d2'' @ newline]\<rparr>"

text \<open>
  Inputs with a negative flag whose absolute value exceeds every other flag: one
  group of three cells; two groups, of one cell and of none, and the encoder that
  the constructor returns on them.
\<close>

definition negative_only_args :: "rat init_args" where
  "negative_only_args =
     \<lparr>arg_nqfb = 1, arg_nqcfb = 3, arg_nqtfb = 1, arg_iufbobsv = 0, arg_tomultfb = 1,
      arg_nqobfb = [1], arg_nqclfb = [- 3], arg_obsnam = [''o1''],
      arg_irefsp = [1], arg_toffset = [0], arg_flwobs = [5],
      arg_layer = [[1, 1, 1]], arg_row = [[1, 2, 3]], arg_column = [[7, 8, 9]],
      arg_factor = [[2 / 10, 5 / 10, 9 / 10]],
      arg_flowtype = Some ''CHD'', arg_extension = default_extension,
      arg_unitnumber = default_unitnumber\<rparr>"

definition negative_one_args :: "rat init_args" where
  "negative_one_args =
     \<lparr>arg_nqfb = 2, arg_nqcfb = 1, arg_nqtfb = 1, arg_iufbobsv = 0, arg_tomultfb = 1,
      arg_nqobfb = [1, 0], arg_nqclfb = [- 1, 0], arg_obsnam = [''o1''],
      arg_irefsp = [1], arg_toffset = [0], arg_flwobs = [5],
      arg_layer = [[4], []], arg_row = [[5], []], arg_column = [[6], []],
      arg_factor = [[5 / 10], []],
      arg_flowtype = Some ''CHD'', arg_extension = default_extension,
      arg_unitnumber = default_unitnumber\<rparr>"

definition negative_one_encoder :: "rat encoder" where
  "negative_one_encoder =
     \<lparr>name = [''CHOB'', ''DATA''], extension = [''chob'', ''obc''],
      unit_number = [40, 140], fn_path = ''model.chob'', url = ''chob.htm'',
      heading = ''# CHOB for MODFLOW, generated by Flopy.'',
      nqfb = 2, nqcfb = 1, nqtfb = 1, iufbobsv = 140, tomultfb = 1,
      nqobfb = [1, 0], nqclfb = [- 1, 0], obsnam = [''o1''],
      irefsp = [1], toffset = [0], flwobs = [5],
      layer = [[], []], row = [[], []], column = [[], []], factor = [[], []]\<rparr>"

section \<open>Properties of the constructor and of \<^verbatim>\<open>write_file\<close>\<close>

subsection \<open>The loops of \<^verbatim>\<open>write_file\<close>\<close>

lemma write_obs_ok:
  "obs_fit e (c + n) \<Longrightarrow> write_obs e n c = Inr (map (obs_line e) [c..<c + n], c + n)"
proof (induction n arbitrary: c)
  case 0
  then show ?case by simp
next
  case (Suc n)
  from Suc.prems have fit: "obs_fit e (Suc c + n)" by simp
  from Suc.prems have c: "c < length (obsnam e)" "c < length (irefsp e)"
      "c < length (toffset e)" "c < length (flwobs e)"
    by (simp_all add: obs_fit_def)
  have upt: "[c..<Suc (c + n)] = c # [Suc c..<Suc (c + n)]"
    by (simp add: upt_conv_Cons)
  have hd: "Section4 (obsnam e ! c) (irefsp e ! c) (toffset e ! c) (flwobs e ! c) = obs_line e c"
    by (simp add: obs_line_def)
  show ?case
    using c Suc.IH [OF fit] by (simp add: getitem_def hd upt del: upt_Suc)
qed

lemma write_cells_keep:
  assumes "i < length (nqclfb e)" and "0 \<le> nqclfb e ! i"
    and "cells_fit (layer e) i n" and "cells_fit (row e) i n"
    and "cells_fit (column e) i n" and "cells_fit (factor e) i n"
    and "\<forall>j\<in>set js. j < n"
  shows "write_cells e i js = Inr (map (cell_line e i) js, e)"
  using assms(7)
proof (induction js)
  case Nil
  then show ?case by simp
next
  case (Cons j js)
  then have j: "j < n" and IH: "write_cells e i js = Inr (map (cell_line e i) js, e)"
    by simp_all
  from assms j show ?case
    by (simp add: IH getitem_def getitem2_def cells_fit_def cell_line_def)
qed

lemma write_cells_ones:
  assumes "i < length (nqclfb e)" and "nqclfb e ! i < 0"
    and "cells_fit (layer e) i n" and "cells_fit (row e) i n"
    and "cells_fit (column e) i n" and "cells_fit (factor e) i n"
    and "factor e ! i = replicate (length (factor e ! i)) 1"
    and "\<forall>j\<in>set js. j < n"
  shows "write_cells e i js = Inr (map (cell_line e i) js, e)"
  using assms(8)
proof (induction js)
  case Nil
  then show ?case by simp
next
  case (Cons j js)
  then have j: "j < n" and IH: "write_cells e i js = Inr (map (cell_line e i) js, e)"
    by simp_all
  have same: "e\<lparr>factor := (factor e)[i := replicate (length (factor e ! i)) 1]\<rparr> = e"
    using assms(7) by (metis list_update_id encoder.surjective encoder.update_convs(21))
  have one: "factor e ! i ! j = 1"
    using assms(6,7) j by (metis cells_fit_def nth_replicate order_less_le_trans)
  from assms(1-6) j show ?case
    by (simp add: IH getitem_def getitem2_def cells_fit_def cell_line_def set_factor_row_def same one)
qed

lemma cell_line_reset:
  "cell_line (e\<lparr>factor := reset_row (nqclfb e) k (factor e)\<rparr>) i j = cell_line e i j"
  by (cases "i = k") (simp_all add: cell_line_def reset_row_def)

lemma write_cells_ok:
  assumes i: "i < length (nqclfb e)"
    and fit: "cells_fit (layer e) i n" "cells_fit (row e) i n"
      "cells_fit (column e) i n" "cells_fit (factor e) i n"
    and js: "\<forall>j\<in>set js. j < n" and ne: "js \<noteq> []"
  shows "write_cells e i js =
    Inr (map (cell_line e i) js, e\<lparr>factor := reset_row (nqclfb e) i (factor e)\<rparr>)"
proof (cases "nqclfb e ! i < 0")
  case False
  then have "e\<lparr>factor := reset_row (nqclfb e) i (factor e)\<rparr> = e"
    by (simp add: reset_row_def)
  with write_cells_keep [of i e n js] assms False show ?thesis by simp
next
  case True
  define e1 where "e1 = e\<lparr>factor := reset_row (nqclfb e) i (factor e)\<rparr>"
  have fi: "i < length (factor e)" using fit(4) by (simp add: cells_fit_def)
  have f1: "factor e1 = (factor e)[i := replicate (length (factor e ! i)) 1]"
    using True by (simp add: e1_def reset_row_def)
  have row1: "factor e1 ! i = replicate (length (factor e1 ! i)) 1"
    using fi by (simp add: f1)
  have fit1: "cells_fit (layer e1) i n" "cells_fit (row e1) i n"
      "cells_fit (column e1) i n" "cells_fit (factor e1) i n"
    using fit fi by (simp_all add: e1_def cells_fit_def reset_row_def True)
  have q1: "i < length (nqclfb e1)" "nqclfb e1 ! i < 0"
    using i True by (simp_all add: e1_def)
  have all: "write_cells e1 i js = Inr (map (cell_line e1 i) js, e1)"
    using write_cells_ones [OF q1 fit1 row1 js] .
  have lines: "map (cell_line e1 i) js = map (cell_line e i) js"
    by (simp add: e1_def cell_line_reset)
  have set1: "set_factor_row e i = Inr e1"
    using fi True by (simp add: set_factor_row_def e1_def reset_row_def)
  have set2: "set_factor_row e1 i = Inr e1"
  proof -
    have "e1\<lparr>factor := (factor e1)[i := replicate (length (factor e1 ! i)) 1]\<rparr> = e1"
      using row1 by (metis list_update_id encoder.surjective encoder.update_convs(21))
    then show ?thesis using fi by (simp add: set_factor_row_def f1)
  qed
  obtain j js' where jj: "js = j # js'" using ne by (cases js) auto
  have "write_cells e i (j # js') = write_cells e1 i (j # js')"
    using i True q1 by (simp add: getitem_def set1 set2)
  then show ?thesis using all lines by (simp add: jj e1_def)
qed

lemma write_group_ok:
  assumes ok: "group_ok e i" and fit: "obs_fit e (c + obs_count e i)"
  shows "write_group e i c =
    Inr (group_lines e i c, c + obs_count e i,
         e\<lparr>factor := reset_row (nqclfb e) i (factor e)\<rparr>)"
proof -
  from ok have i: "i < length (nqobfb e)" "i < length (nqclfb e)"
    and cf: "cells_fit (layer e) i (cell_count e i)" "cells_fit (row e) i (cell_count e i)"
      "cells_fit (column e) i (cell_count e i)" "cells_fit (factor e) i (cell_count e i)"
    by (simp_all add: group_ok_def)
  have obs: "write_obs e (nat (nqobfb e ! i)) c =
      Inr (map (obs_line e) [c..<c + obs_count e i], c + obs_count e i)"
    using write_obs_ok [OF fit] by (simp add: obs_count_def)
  have cells: "write_cells e i [0..<nat \<bar>nqclfb e ! i\<bar>] =
      Inr (map (cell_line e i) [0..<cell_count e i],
           e\<lparr>factor := reset_row (nqclfb e) i (factor e)\<rparr>)"
  proof (cases "cell_count e i = 0")
    case True
    then have "nqclfb e ! i = 0" by (simp add: cell_count_def)
    then show ?thesis by (simp add: cell_count_def reset_row_def)
  next
    case False
    then have ne: "[0..<cell_count e i] \<noteq> []" by simp
    have "\<forall>j\<in>set [0..<cell_count e i]. j < cell_count e i" by simp
    from write_cells_ok [OF i(2) cf this ne] show ?thesis by (simp add: cell_count_def)
  qed
  show ?thesis
    using i by (simp add: write_group_def getitem_def obs cells group_lines_def)
qed

lemma reset_row_length [simp]: "length (reset_row q k f) = length f"
  by (simp add: reset_row_def)

lemma reset_row_nth_length [simp]: "length (reset_row q k f ! i) = length (f ! i)"
proof (cases "k < length f")
  case True
  then show ?thesis by (cases "i = k") (simp_all add: reset_row_def)
next
  case False
  then show ?thesis by (simp add: reset_row_def list_update_beyond)
qed

lemma cells_fit_reset [simp]: "cells_fit (reset_row q k f) i n = cells_fit f i n"
  by (simp add: cells_fit_def)

lemma obs_count_reset [simp]: "obs_count (e\<lparr>factor := f\<rparr>) = obs_count e"
  by (rule ext) (simp add: obs_count_def)

lemma cell_count_reset [simp]: "cell_count (e\<lparr>factor := f\<rparr>) i = cell_count e i"
  by (simp add: cell_count_def)

lemma obs_total_reset [simp]: "obs_total (e\<lparr>factor := f\<rparr>) is = obs_total e is"
  by (simp add: obs_total_def)

lemma obs_fit_reset [simp]: "obs_fit (e\<lparr>factor := f\<rparr>) n = obs_fit e n"
  by (simp add: obs_fit_def)

lemma obs_line_reset [simp]: "obs_line (e\<lparr>factor := f\<rparr>) k = obs_line e k"
  by (simp add: obs_line_def)

lemma group_ok_reset [simp]:
  "group_ok (e\<lparr>factor := reset_row q k (factor e)\<rparr>) = group_ok e"
  by (rule ext) (simp add: group_ok_def)

lemma group_lines_reset:
  "group_lines (e\<lparr>factor := reset_row (nqclfb e) k (factor e)\<rparr>) i c = group_lines e i c"
  by (simp add: group_lines_def cell_line_reset)

lemma groups_lines_reset:
  "groups_lines (e\<lparr>factor := reset_row (nqclfb e) k (factor e)\<rparr>) is c = groups_lines e is c"
  by (induction "is" arbitrary: c) (simp_all add: group_lines_reset)

lemma write_groups_ok:
  assumes "list_all (group_ok e) is" and "obs_fit e (c + obs_total e is)"
  shows "write_groups e is c =
    Inr (groups_lines e is c, c + obs_total e is,
         e\<lparr>factor := reset_rows (nqclfb e) is (factor e)\<rparr>)"
  using assms
proof (induction "is" arbitrary: e c)
  case Nil
  then show ?case by (simp add: reset_rows_def obs_total_def)
next
  case (Cons i "is")
  define e1 where "e1 = e\<lparr>factor := reset_row (nqclfb e) i (factor e)\<rparr>"
  from Cons.prems have ok: "group_ok e i" and rest: "list_all (group_ok e) is"
    by simp_all
  have tot: "obs_total e (i # is) = obs_count e i + obs_total e is"
    by (simp add: obs_total_def)
  from Cons.prems(2) have fit1: "obs_fit e (c + obs_count e i)"
    by (simp add: obs_fit_def tot)
  have g: "write_group e i c = Inr (group_lines e i c, c + obs_count e i, e1)"
    using write_group_ok [OF ok fit1] by (simp add: e1_def)
  have rest1: "list_all (group_ok e1) is"
    using rest by (simp add: e1_def)
  have fit2: "obs_fit e1 (c + obs_count e i + obs_total e1 is)"
    using Cons.prems(2) by (simp add: e1_def tot add.assoc)
  have r: "write_groups e1 is (c + obs_count e i) =
      Inr (groups_lines e1 is (c + obs_count e i), c + obs_count e i + obs_total e1 is,
           e1\<lparr>factor := reset_rows (nqclfb e1) is (factor e1)\<rparr>)"
    using Cons.IH [OF rest1 fit2] .
  have l: "groups_lines e1 is (c + obs_count e i) = groups_lines e is (c + obs_count e i)"
    by (simp add: e1_def groups_lines_reset)
  have s: "e1\<lparr>factor := reset_rows (nqclfb e1) is (factor e1)\<rparr> =
      e\<lparr>factor := reset_rows (nqclfb e) (i # is) (factor e)\<rparr>"
    by (simp add: e1_def reset_rows_def)
  have t: "obs_total e1 is = obs_total e is"
    by (simp add: e1_def)
  show ?case
    by (simp add: g r l s t tot add.assoc)
qed

lemma write_names_ok:
  "\<forall>i\<in>set is. i < length nms \<Longrightarrow>
   write_names nms is = Inr (map (\<lambda>i. nms ! i @ newline) is)"
  by (induction "is") (simp_all add: getitem_def)

lemma names_upto:
  "n \<le> length nms \<Longrightarrow> map (\<lambda>i. nms ! i @ newline) [0..<n] = map (\<lambda>nm. nm @ newline) (take n nms)"
  by (simp add: list_eq_iff_nth_eq)

lemma write_file_ok:
  assumes "writable e"
  shows "write_file e =
    Inr \<lparr>encoder_after = after_write e,
         primary_path = fn_path e,
         primary_lines = header_lines e @ groups_lines e (groups e) 0,
         ins_path = fn_path e @ ''_ins'',
         ins_lines = ins_header e @ map (\<lambda>nm. nm @ newline) (take (nat (nqtfb e)) (obsnam e))\<rparr>"
proof -
  from assms have ok: "list_all (group_ok e) (groups e)"
    and fit: "obs_fit e (0 + obs_total e (groups e))"
    and nm: "nat (nqtfb e) \<le> length (obsnam e)"
    by (simp_all add: writable_def groups_def)
  have g: "write_groups e [0..<nat (nqfb e)] 0 =
      Inr (groups_lines e (groups e) 0, obs_total e (groups e), after_write e)"
    using write_groups_ok [OF ok fit] by (simp add: groups_def after_write_def)
  have n: "write_names (obsnam e) [0..<nat (nqtfb e)] =
      Inr (map (\<lambda>nm. nm @ newline) (take (nat (nqtfb e)) (obsnam e)))"
    using nm write_names_ok [of "[0..<nat (nqtfb e)]" "obsnam e"] names_upto [OF nm]
    by simp
  show ?thesis
    by (simp add: write_file_def g n after_write_def header_lines_def ins_header_def)
qed

subsection \<open>The factor array after a call\<close>

lemma reset_rows_length [simp]: "length (reset_rows q is f) = length f"
  by (induction "is" arbitrary: f) (simp_all add: reset_rows_def)

lemma reset_row_nth:
  "i < length f \<Longrightarrow>
   reset_row q k f ! i = (if i = k \<and> q ! k < 0 then replicate (length (f ! i)) 1 else f ! i)"
  by (simp add: reset_row_def)

lemma reset_rows_nth:
  "i < length f \<Longrightarrow>
   reset_rows q is f ! i =
     (if i \<in> set is \<and> q ! i < 0 then replicate (length (f ! i)) 1 else f ! i)"
proof (induction "is" arbitrary: f)
  case Nil
  then show ?case by (simp add: reset_rows_def)
next
  case (Cons k "is")
  have step: "reset_rows q (k # is) f = reset_rows q is (reset_row q k f)"
    by (simp add: reset_rows_def)
  from Cons.prems have i: "i < length (reset_row q k f)" by simp
  have r: "reset_rows q (k # is) f ! i =
      (if i \<in> set is \<and> q ! i < 0 then replicate (length (f ! i)) 1
       else reset_row q k f ! i)"
    using Cons.IH [OF i] by (simp only: step reset_row_nth_length)
  show ?case
    unfolding r using Cons.prems by (auto simp: reset_row_nth)
qed

lemma reset_rows_nth_length [simp]: "length (reset_rows q is f ! i) = length (f ! i)"
proof (induction "is" arbitrary: f)
  case Nil
  then show ?case by (simp add: reset_rows_def)
next
  case (Cons k "is")
  have "reset_rows q (k # is) f = reset_rows q is (reset_row q k f)"
    by (simp add: reset_rows_def)
  then show ?case by (simp add: Cons.IH)
qed

lemma reset_rows_idem: "reset_rows q is (reset_rows q is f) = reset_rows q is f"
  by (rule nth_equalityI) (simp_all add: reset_rows_nth)

lemma groups_lines_reset_rows:
  "groups_lines (e\<lparr>factor := reset_rows (nqclfb e) is (factor e)\<rparr>) js c = groups_lines e js c"
proof (induction "is" arbitrary: e)
  case Nil
  then show ?case by (simp add: reset_rows_def)
next
  case (Cons k "is")
  define e1 where "e1 = e\<lparr>factor := reset_row (nqclfb e) k (factor e)\<rparr>"
  have "e\<lparr>factor := reset_rows (nqclfb e) (k # is) (factor e)\<rparr> =
      e1\<lparr>factor := reset_rows (nqclfb e1) is (factor e1)\<rparr>"
    by (simp add: e1_def reset_rows_def)
  then have "groups_lines (e\<lparr>factor := reset_rows (nqclfb e) (k # is) (factor e)\<rparr>) js c =
      groups_lines e1 js c"
    by (simp only: Cons.IH)
  also have "\<dots> = groups_lines e js c"
    by (simp only: e1_def groups_lines_reset)
  finally show ?case .
qed

lemma cells_fit_reset_rows [simp]: "cells_fit (reset_rows q is f) i n = cells_fit f i n"
  by (simp add: cells_fit_def)

lemma group_ok_after: "group_ok (after_write e) = group_ok e"
  by (rule ext) (simp add: group_ok_def after_write_def cell_count_def)

lemma writable_after: "writable e \<Longrightarrow> writable (after_write e)"
  by (simp add: writable_def group_ok_after) (simp add: after_write_def)

lemma after_write_idem: "after_write (after_write e) = after_write e"
  by (simp add: after_write_def groups_def reset_rows_idem)

lemma lines_after:
  "header_lines (after_write e) = header_lines e"
  "groups_lines (after_write e) js c = groups_lines e js c"
  "groups (after_write e) = groups e"
  "ins_header (after_write e) = ins_header e"
  "obsnam (after_write e) = obsnam e" "nqtfb (after_write e) = nqtfb e"
  "fn_path (after_write e) = fn_path e"
  by (simp_all add: after_write_def header_lines_def ins_header_def groups_def
      groups_lines_reset_rows)

subsection \<open>Reading the primary file back\<close>

lemma filter_obs_map: "filter is_obs (map (obs_line e) ks) = map (obs_line e) ks"
  by (induction ks) (simp_all add: obs_line_def)

lemma filter_obs_cells: "filter is_obs (map (cell_line e i) js) = []"
  by (induction js) (simp_all add: cell_line_def)

lemma filter_cell_map: "filter is_cell (map (cell_line e i) js) = map (cell_line e i) js"
  by (induction js) (simp_all add: cell_line_def)

lemma filter_cell_obs: "filter is_cell (map (obs_line e) ks) = []"
  by (induction ks) (simp_all add: obs_line_def)

lemma filter_obs_group:
  "filter is_obs (group_lines e i c) = map (obs_line e) [c..<c + obs_count e i]"
  by (simp add: group_lines_def filter_obs_map filter_obs_cells)

lemma filter_cell_group:
  "filter is_cell (group_lines e i c) = map (cell_line e i) [0..<cell_count e i]"
  by (simp add: group_lines_def filter_cell_map filter_cell_obs)

lemma filter_obs_groups:
  "filter is_obs (groups_lines e is c) = map (obs_line e) [c..<c + obs_total e is]"
proof (induction "is" arbitrary: c)
  case Nil
  then show ?case by (simp add: obs_total_def)
next
  case (Cons i "is")
  define n where "n = obs_count e i"
  define t where "t = obs_total e is"
  have tot: "obs_total e (i # is) = n + t"
    by (simp add: obs_total_def n_def t_def)
  have "filter is_obs (groups_lines e (i # is) c) =
      map (obs_line e) [c..<c + n] @ map (obs_line e) [c + n..<c + n + t]"
    by (simp only: groups_lines.simps filter_append filter_obs_group Cons.IH n_def t_def)
  also have "\<dots> = map (obs_line e) ([c..<c + n] @ [c + n..<c + n + t])"
    by (simp only: map_append)
  also have "[c..<c + n] @ [c + n..<c + n + t] = [c..<c + n + t]"
    by (simp only: upt_add_eq_append [OF le_add1, symmetric])
  finally show ?case by (simp only: tot add.assoc)
qed

lemma filter_obs_header: "filter is_obs (header_lines e) = []"
  by (simp add: header_lines_def)

lemma obs_of_file:
  "filter is_obs (header_lines e @ groups_lines e is 0) = map (obs_line e) [0..<obs_total e is]"
  by (simp add: filter_obs_header filter_obs_groups)

lemma obs_names_map: "List.map_filter obs_name (map (obs_line e) ks) = map (\<lambda>k. obsnam e ! k) ks"
  by (induction ks) (simp_all add: obs_line_def List.map_filter_simps)

lemma map_filter_via_filter:
  "List.map_filter obs_name ls = List.map_filter obs_name (filter is_obs ls)"
proof (induction ls)
  case Nil
  then show ?case by simp
next
  case (Cons l ls)
  then show ?case by (cases l) (simp_all add: List.map_filter_simps)
qed

lemma nth_upto_take: "n \<le> length xs \<Longrightarrow> map (\<lambda>k. xs ! k) [0..<n] = take n xs"
  by (rule nth_equalityI) simp_all

lemma cell_factors_map:
  "List.map_filter cell_factor (map (cell_line e i) js) =
     map (\<lambda>j. if nqclfb e ! i < 0 then 1 else factor e ! i ! j) js"
  by (induction js) (simp_all add: cell_line_def List.map_filter_simps)

lemma cell_factors_obs: "List.map_filter cell_factor (map (obs_line e) ks) = []"
  by (induction ks) (simp_all add: obs_line_def List.map_filter_simps)

lemma map_filter_append: "List.map_filter f (xs @ ys) = List.map_filter f xs @ List.map_filter f ys"
  by (simp add: List.map_filter_def)

lemma cell_factors_group:
  "List.map_filter cell_factor (group_lines e i c) =
     map (\<lambda>j. if nqclfb e ! i < 0 then 1 else factor e ! i ! j) [0..<cell_count e i]"
  by (simp add: group_lines_def map_filter_append cell_factors_obs cell_factors_map
      List.map_filter_simps)

lemma no_header_obs: "\<not> list_ex is_group_header (map (obs_line e) ks)"
  by (induction ks) (simp_all add: obs_line_def)

lemma no_header_cells: "\<not> list_ex is_group_header (map (cell_line e i) js)"
  by (induction js) (simp_all add: cell_line_def)

lemma split_groups_no_header:
  "\<not> list_ex is_group_header xs \<Longrightarrow>
   split_groups (xs @ ys) = (xs @ fst (split_groups ys), snd (split_groups ys))"
  by (induction xs) (simp_all split: prod.splits)

lemma split_groups_group:
  "split_groups (group_lines e i c @ ys) =
     ([], (group_lines e i c @ fst (split_groups ys)) # snd (split_groups ys))"
proof -
  have "\<not> list_ex is_group_header
      (map (obs_line e) [c..<c + obs_count e i] @ map (cell_line e i) [0..<cell_count e i])"
    by (simp add: no_header_obs no_header_cells)
  from split_groups_no_header [OF this, of ys] show ?thesis
    by (simp add: group_lines_def)
qed

lemma split_groups_groups:
  "split_groups (groups_lines e is c) = ([], group_blocks e is c)"
proof (induction "is" arbitrary: c)
  case Nil
  then show ?case by simp
next
  case (Cons i "is")
  show ?case
    using split_groups_group [of e i c "groups_lines e is (c + obs_count e i)"]
    by (simp add: Cons.IH)
qed

lemma blocks_of_file:
  "group_blocks_of (header_lines e @ groups_lines e is c) = group_blocks e is c"
proof -
  have "\<not> list_ex is_group_header (header_lines e)"
    by (simp add: header_lines_def)
  from split_groups_no_header [OF this] show ?thesis
    by (simp add: group_blocks_of_def split_groups_groups)
qed

lemma group_blocks_length [simp]: "length (group_blocks e is c) = length is"
  by (induction "is" arbitrary: c) simp_all

lemma group_blocks_nth:
  "k < length is \<Longrightarrow>
   group_blocks e is c ! k = group_lines e (is ! k) (c + obs_total e (take k is))"
proof (induction "is" arbitrary: c k)
  case Nil
  then show ?case by simp
next
  case (Cons i "is")
  show ?case
  proof (cases k)
    case 0
    then show ?thesis by (simp add: obs_total_def)
  next
    case (Suc k')
    with Cons.prems have "k' < length is" by simp
    from Cons.IH [OF this] Suc show ?thesis
      by (simp add: obs_total_def add.assoc)
  qed
qed

lemma block_of_group:
  assumes "i < nat (nqfb e)"
  shows "group_blocks_of (header_lines e @ groups_lines e (groups e) 0) ! i =
    group_lines e i (obs_total e (take i (groups e)))"
proof -
  from assms have i: "i < length (groups e)" and g: "groups e ! i = i"
    by (simp_all add: groups_def)
  show ?thesis
    using group_blocks_nth [OF i, of e 0] by (simp add: blocks_of_file g)
qed

lemma sum_list_nat: "list_all (\<lambda>n. 0 \<le> n) xs \<Longrightarrow> sum_list (map nat xs) = nat (sum_list xs)"
proof (induction xs)
  case Nil
  then show ?case by simp
next
  case (Cons x xs)
  then have "0 \<le> x" "0 \<le> sum_list xs"
    by (simp_all add: list_all_iff sum_list_nonneg)
  with Cons show ?case by (simp add: nat_add_distrib)
qed

lemma obs_total_all:
  assumes "counts_agree e"
  shows "obs_total e (groups e) = nat (nqtfb e)"
proof -
  from assms have len: "length (nqobfb e) = nat (nqfb e)"
    and nn: "list_all (\<lambda>n. 0 \<le> n) (nqobfb e)" and s: "sum_list (nqobfb e) = nqtfb e"
    by (simp_all add: counts_agree_def)
  have m: "map (obs_count e) [0..<length (nqobfb e)] = map nat (nqobfb e)"
  proof (rule nth_equalityI)
    show "length (map (obs_count e) [0..<length (nqobfb e)]) = length (map nat (nqobfb e))"
      by simp
  next
    fix i
    assume "i < length (map (obs_count e) [0..<length (nqobfb e)])"
    then have "i < length (nqobfb e)" by simp
    then show "map (obs_count e) [0..<length (nqobfb e)] ! i = map nat (nqobfb e) ! i"
      by (simp add: obs_count_def)
  qed
  have "obs_total e (groups e) = sum_list (map (obs_count e) [0..<length (nqobfb e)])"
    by (simp only: obs_total_def groups_def len)
  also have "\<dots> = nat (sum_list (nqobfb e))"
    by (simp only: m sum_list_nat [OF nn])
  finally show ?thesis by (simp only: s)
qed

subsection \<open>The tag\<close>

lemma is_space_upper_char: "is_space (upper_char c) = is_space c"
  by (auto simp: upper_char_def is_space_def split: option.splits if_splits)

lemma dropWhile_all: "list_all P xs \<Longrightarrow> dropWhile P xs = []"
  by (induction xs) simp_all

lemma strip_all_space: "list_all is_space s \<Longrightarrow> strip s = []"
  by (simp add: strip_def dropWhile_all)

lemma strip_space_prefix: "list_all is_space pre \<Longrightarrow> strip (pre @ s) = strip s"
  by (simp add: strip_def dropWhile_append2 list_all_iff)

lemma strip_space_suffix:
  assumes "list_all is_space post"
  shows "strip (s @ post) = strip s"
proof (cases "list_all is_space s")
  case True
  with assms have "list_all is_space (s @ post)" by simp
  then show ?thesis using True by (simp only: strip_all_space)
next
  case False
  then obtain x where x: "x \<in> set s" "\<not> is_space x" by (auto simp: list_all_iff)
  then have "dropWhile is_space (s @ post) = dropWhile is_space s @ post"
    by (simp add: dropWhile_append1)
  moreover have "dropWhile is_space (rev post @ r) = dropWhile is_space r" for r
    using assms by (intro dropWhile_append2) (simp add: list_all_iff)
  ultimately show ?thesis by (simp add: strip_def)
qed

lemma strip_upper_padded:
  assumes "list_all is_space pre" and "list_all is_space post"
  shows "strip (upper (pre @ t @ post)) = strip (upper t)"
proof -
  have "list_all is_space (upper pre)" "list_all is_space (upper post)"
    using assms by (simp_all add: upper_def list_all_iff is_space_upper_char)
  then have "strip (upper pre @ upper t @ upper post) = strip (upper t)"
    by (metis append.assoc strip_space_prefix strip_space_suffix)
  then show ?thesis by (simp add: upper_def)
qed

lemma select_padded:
  assumes "list_all is_space pre" and "list_all is_space post" and "upper t = upper t'"
  shows "select_flowtype (Some (pre @ t @ post)) ext un = select_flowtype (Some t') ext un"
proof -
  have "strip (upper (pre @ t @ post)) = strip (upper t')"
    using strip_upper_padded [OF assms(1,2)] assms(3) by simp
  then show ?thesis by (simp add: select_flowtype_def)
qed

lemma strip_upper_XYZ: "strip (upper ''XYZ'') = ''XYZ''"
  by (simp add: strip_def upper_def upper_char_def is_space_def)

lemma select_default_CHD:
  "select_flowtype (Some ''CHD'') default_extension default_unitnumber =
     Inr \<lparr>meta_name = [''CHOB'', ''DATA''], meta_extension = [''chob'', ''obc''],
          meta_unitnumber = [40, 140], meta_iufbobsv = 140, meta_url = ''chob.htm'',
          meta_heading = ''# CHOB for MODFLOW, generated by Flopy.''\<rparr>"
  by (simp add: select_flowtype_def strip_def upper_def upper_char_def is_space_def
      branch_def slice_def getitem_def default_extension_def default_unitnumber_def)

lemma select_chd_lower:
  "select_flowtype (Some ''chd '') ext un = select_flowtype (Some ''CHD'') ext un"
  by (simp add: select_flowtype_def strip_def upper_def upper_char_def is_space_def)

subsection \<open>What the constructor establishes\<close>

lemma assign_prefix_length: "assign_prefix dst src = Inr r \<Longrightarrow> length r = length dst"
  by (auto simp: assign_prefix_def split: if_splits)

lemma assign_row_shape:
  assumes "assign_row m src i = Inr m'"
  shows "map length m' = map length m"
proof -
  from assms obtain r where i: "i < length m" and r: "assign_prefix (m ! i) (src ! i) = Inr r"
    and m': "m' = m[i := r]"
    by (auto simp: assign_row_def getitem_def split: if_splits sum.splits)
  have "length r = length (m ! i)" using assign_prefix_length [OF r] .
  then have "(map length m)[i := length r] = map length m"
    using i by (simp add: list_update_same_conv)
  then show ?thesis by (simp add: m' map_update)
qed

lemma assign_rows_result:
  "assign_rows a e is = Inr e' \<Longrightarrow>
     e' = e\<lparr>layer := layer e', row := row e', column := column e', factor := factor e'\<rparr> \<and>
     map length (layer e') = map length (layer e) \<and>
     map length (row e') = map length (row e) \<and>
     map length (column e') = map length (column e) \<and>
     map length (factor e') = map length (factor e)"
proof (induction "is" arbitrary: e)
  case Nil
  then show ?case by simp
next
  case (Cons i "is")
  from Cons.prems obtain l r c f where
    l: "assign_row (layer e) (arg_layer a) i = Inr l" and
    r: "assign_row (row e) (arg_row a) i = Inr r" and
    c: "assign_row (column e) (arg_column a) i = Inr c" and
    f: "assign_row (factor e) (arg_factor a) i = Inr f" and
    rest: "assign_rows a (e\<lparr>layer := l, row := r, column := c, factor := f\<rparr>) is = Inr e'"
    by (auto split: sum.splits)
  from Cons.IH [OF rest] assign_row_shape [OF l] assign_row_shape [OF r]
    assign_row_shape [OF c] assign_row_shape [OF f]
  show ?case by simp
qed

lemma construct_result:
  assumes "construct path a = Inr e"
  shows "\<exists>m w.
    select_flowtype (arg_flowtype a) (arg_extension a) (arg_unitnumber a) = Inr m \<and>
    py_max (arg_nqclfb a) = Inr w \<and> 0 \<le> arg_nqfb a \<and> 0 \<le> w \<and> 0 \<le> arg_nqtfb a \<and>
    name e = meta_name m \<and> extension e = meta_extension m \<and>
    unit_number e = meta_unitnumber m \<and> iufbobsv e = meta_iufbobsv m \<and>
    url e = meta_url m \<and> heading e = meta_heading m \<and> fn_path e = path \<and>
    nqfb e = arg_nqfb a \<and> nqcfb e = arg_nqcfb a \<and> nqtfb e = arg_nqtfb a \<and>
    tomultfb e = arg_tomultfb a \<and> obsnam e = arg_obsnam a \<and>
    assign_all (replicate (nat (arg_nqfb a)) 0) (arg_nqobfb a) = Inr (nqobfb e) \<and>
    assign_all (replicate (nat (arg_nqfb a)) 0) (arg_nqclfb a) = Inr (nqclfb e) \<and>
    assign_all (replicate (nat (arg_nqtfb a)) 0) (arg_irefsp a) = Inr (irefsp e) \<and>
    assign_all (replicate (nat (arg_nqtfb a)) 0) (arg_toffset a) = Inr (toffset e) \<and>
    assign_all (replicate (nat (arg_nqtfb a)) 0) (arg_flwobs a) = Inr (flwobs e) \<and>
    map length (layer e) = replicate (nat (arg_nqfb a)) (nat w) \<and>
    map length (row e) = replicate (nat (arg_nqfb a)) (nat w) \<and>
    map length (column e) = replicate (nat (arg_nqfb a)) (nat w) \<and>
    map length (factor e) = replicate (nat (arg_nqfb a)) (nat w)"
proof -
  from assms obtain m w ob cl ir tof fl where
    m: "select_flowtype (arg_flowtype a) (arg_extension a) (arg_unitnumber a) = Inr m" and
    w: "py_max (arg_nqclfb a) = Inr w" and
    nn: "0 \<le> arg_nqfb a" "0 \<le> w" "0 \<le> arg_nqtfb a" and
    ob: "assign_all (replicate (nat (arg_nqfb a)) 0) (arg_nqobfb a) = Inr ob" and
    cl: "assign_all (replicate (nat (arg_nqfb a)) 0) (arg_nqclfb a) = Inr cl" and
    ir: "assign_all (replicate (nat (arg_nqtfb a)) 0) (arg_irefsp a) = Inr ir" and
    tof: "assign_all (replicate (nat (arg_nqtfb a)) 0) (arg_toffset a) = Inr tof" and
    fl: "assign_all (replicate (nat (arg_nqtfb a)) 0) (arg_flwobs a) = Inr fl" and
    rows: "assign_rows a
            \<lparr>name = meta_name m, extension = meta_extension m,
             unit_number = meta_unitnumber m, fn_path = path,
             url = meta_url m, heading = meta_heading m,
             nqfb = arg_nqfb a, nqcfb = arg_nqcfb a, nqtfb = arg_nqtfb a,
             iufbobsv = meta_iufbobsv m, tomultfb = arg_tomultfb a,
             nqobfb = ob, nqclfb = cl, obsnam = arg_obsnam a,
             irefsp = ir, toffset = tof, flwobs = fl,
             layer = replicate (nat (arg_nqfb a)) (replicate (nat w) 0),
             row = replicate (nat (arg_nqfb a)) (replicate (nat w) 0),
             column = replicate (nat (arg_nqfb a)) (replicate (nat w) 0),
             factor = replicate (nat (arg_nqfb a)) (replicate (nat w) 0)\<rparr>
            [0..<nat (arg_nqfb a)] = Inr e"
    by (auto simp: construct_def zeros2_def zeros1_def split: sum.splits if_splits)
  note r = assign_rows_result [OF rows]
  from r have eq: "e = \<lparr>name = meta_name m, extension = meta_extension m,
             unit_number = meta_unitnumber m, fn_path = path,
             url = meta_url m, heading = meta_heading m,
             nqfb = arg_nqfb a, nqcfb = arg_nqcfb a, nqtfb = arg_nqtfb a,
             iufbobsv = meta_iufbobsv m, tomultfb = arg_tomultfb a,
             nqobfb = ob, nqclfb = cl, obsnam = arg_obsnam a,
             irefsp = ir, toffset = tof, flwobs = fl,
             layer = layer e, row = row e, column = column e, factor = factor e\<rparr>"
    by simp
  have f: "name e = meta_name m" "extension e = meta_extension m"
    "unit_number e = meta_unitnumber m" "iufbobsv e = meta_iufbobsv m"
    "url e = meta_url m" "heading e = meta_heading m" "fn_path e = path"
    "nqfb e = arg_nqfb a" "nqcfb e = arg_nqcfb a" "nqtfb e = arg_nqtfb a"
    "tomultfb e = arg_tomultfb a" "obsnam e = arg_obsnam a"
    "nqobfb e = ob" "nqclfb e = cl" "irefsp e = ir" "toffset e = tof" "flwobs e = fl"
    by (subst eq, simp)+
  from r have s: "map length (layer e) = replicate (nat (arg_nqfb a)) (nat w)"
    "map length (row e) = replicate (nat (arg_nqfb a)) (nat w)"
    "map length (column e) = replicate (nat (arg_nqfb a)) (nat w)"
    "map length (factor e) = replicate (nat (arg_nqfb a)) (nat w)"
    by simp_all
  show ?thesis
    using m w nn ob cl ir tof fl f s by simp
qed

lemma assign_rows_flowtype:
  "assign_rows (a\<lparr>arg_flowtype := x\<rparr>) e is = assign_rows a e is"
  by (induction "is" arbitrary: e) (simp_all split: sum.splits)

lemma construct_flowtype:
  assumes "select_flowtype x (arg_extension a) (arg_unitnumber a) =
    select_flowtype y (arg_extension a) (arg_unitnumber a)"
  shows "construct path (a\<lparr>arg_flowtype := x\<rparr>) = construct path (a\<lparr>arg_flowtype := y\<rparr>)"
  using assms by (simp add: construct_def assign_rows_flowtype cong: sum.case_cong)

lemma assign_all_length: "assign_all dst src = Inr r \<Longrightarrow> length r = length dst"
  by (auto simp: assign_all_def split: if_splits)

lemma assign_all_same: "assign_all dst src = Inr r \<Longrightarrow> length src = length dst \<Longrightarrow> r = src"
  by (auto simp: assign_all_def split: if_splits)

lemma assign_all_set:
  assumes "assign_all dst src = Inr r"
  shows "set r \<subseteq> set src"
proof (cases "length src = length dst")
  case True
  with assms show ?thesis by (simp add: assign_all_def)
next
  case False
  with assms have one: "length src = 1" and r: "r = replicate (length dst) (hd src)"
    by (auto simp: assign_all_def split: if_splits)
  from one have "hd src \<in> set src" by (cases src) simp_all
  with r show ?thesis by auto
qed

lemma construct_writable:
  assumes c: "construct path a = Inr e"
    and len: "length (arg_nqobfb a) = nat (arg_nqfb a)"
    and nn: "list_all (\<lambda>n. 0 \<le> n) (arg_nqobfb a)"
    and sum: "sum_list (arg_nqobfb a) = arg_nqtfb a"
    and nm: "length (arg_obsnam a) = nat (arg_nqtfb a)"
    and wc: "width_covers a"
  shows "writable e \<and> counts_agree e \<and> nqobfb e = arg_nqobfb a \<and>
    nqtfb e = arg_nqtfb a \<and> nqfb e = arg_nqfb a \<and> obsnam e = arg_obsnam a"
proof -
  from construct_result [OF c] obtain w where
    w: "py_max (arg_nqclfb a) = Inr w" and
    f: "nqfb e = arg_nqfb a" "nqtfb e = arg_nqtfb a" "obsnam e = arg_obsnam a" and
    ob: "assign_all (replicate (nat (arg_nqfb a)) 0) (arg_nqobfb a) = Inr (nqobfb e)" and
    cl: "assign_all (replicate (nat (arg_nqfb a)) 0) (arg_nqclfb a) = Inr (nqclfb e)" and
    ir: "assign_all (replicate (nat (arg_nqtfb a)) 0) (arg_irefsp a) = Inr (irefsp e)" and
    tof: "assign_all (replicate (nat (arg_nqtfb a)) 0) (arg_toffset a) = Inr (toffset e)" and
    fl: "assign_all (replicate (nat (arg_nqtfb a)) 0) (arg_flwobs a) = Inr (flwobs e)" and
    sh: "map length (layer e) = replicate (nat (arg_nqfb a)) (nat w)"
      "map length (row e) = replicate (nat (arg_nqfb a)) (nat w)"
      "map length (column e) = replicate (nat (arg_nqfb a)) (nat w)"
      "map length (factor e) = replicate (nat (arg_nqfb a)) (nat w)"
    by blast
  have ob_eq: "nqobfb e = arg_nqobfb a"
    using assign_all_same [OF ob] len by simp
  have agree: "counts_agree e"
    using len nn sum by (simp add: counts_agree_def ob_eq f)
  have lens: "length (nqclfb e) = nat (arg_nqfb a)" "length (irefsp e) = nat (arg_nqtfb a)"
    "length (toffset e) = nat (arg_nqtfb a)" "length (flwobs e) = nat (arg_nqtfb a)"
    using assign_all_length [OF cl] assign_all_length [OF ir] assign_all_length [OF tof]
      assign_all_length [OF fl] by simp_all
  have rows: "length m = nat (arg_nqfb a) \<and> (\<forall>i<nat (arg_nqfb a). length (m ! i) = nat w)"
    if "map length m = replicate (nat (arg_nqfb a)) (nat w)" for m :: "'b list list"
  proof -
    from that have l: "length m = nat (arg_nqfb a)"
      by (metis length_map length_replicate)
    have "length (m ! i) = nat w" if "i < nat (arg_nqfb a)" for i
    proof -
      have "map length m ! i = nat w" using \<open>map length m = _\<close> that by simp
      then show ?thesis using that l by simp
    qed
    with l show ?thesis by blast
  qed
  have small: "nat \<bar>nqclfb e ! i\<bar> \<le> nat w" if "i < nat (arg_nqfb a)" for i
  proof -
    from that lens have "nqclfb e ! i \<in> set (nqclfb e)" by simp
    with assign_all_set [OF cl] have "nqclfb e ! i \<in> set (arg_nqclfb a)" by blast
    with wc w have "\<bar>nqclfb e ! i\<bar> \<le> w" by (simp add: width_covers_def list_all_iff)
    then show ?thesis by simp
  qed
  have ok: "group_ok e i" if "i < nat (arg_nqfb a)" for i
    using that small [OF that] rows [OF sh(1)] rows [OF sh(2)] rows [OF sh(3)] rows [OF sh(4)]
      lens len
    by (simp add: group_ok_def cells_fit_def cell_count_def ob_eq)
  have all_ok: "list_all (group_ok e) [0..<nat (nqfb e)]"
    using ok by (simp add: list_all_iff f)
  have tot: "obs_total e [0..<nat (arg_nqfb a)] = nat (arg_nqtfb a)"
    using obs_total_all [OF agree] by (simp add: groups_def f)
  have "writable e"
    using all_ok lens nm by (simp add: writable_def tot obs_fit_def f)
  with agree ob_eq f show ?thesis by simp
qed

subsection \<open>The sample encoders\<close>

lemma construct_sample: "construct ''model.chob'' sample_args = Inr sample_encoder"
  by (simp add: construct_def sample_args_def sample_encoder_def select_chd_lower
      select_default_CHD py_max_def zeros2_def zeros1_def assign_all_def assign_row_def
      assign_prefix_def getitem_def numeral_2_eq_2 upt_rec [of 0])

lemma width_covers_sample: "width_covers sample_args"
  by (simp add: width_covers_def py_max_def sample_args_def)

lemma str_int_3: "str_int 3 = ''3''"
  by (simp add: str_int_def str_nat.simps [of 3])

lemma write_sample: "write_file sample_encoder = Inr sample_written"
  by (simp add: write_file_def write_group_def set_factor_row_def getitem_def getitem2_def
      sample_encoder_def sample_written_def numeral_2_eq_2 numeral_3_eq_3 str_int_3)

lemma writable_sample: "writable sample_encoder"
  by (simp add: writable_def group_ok_def cells_fit_def cell_count_def obs_fit_def
      obs_total_def obs_count_def sample_encoder_def numeral_2_eq_2)

lemma str_int_2: "str_int 2 = ''2''"
  by (simp add: str_int_def str_nat.simps [of 2])

lemma write_two_five: "write_file two_five_encoder = Inr two_five_written"
  by (simp add: write_file_def write_group_def getitem_def getitem2_def
      two_five_encoder_def two_five_written_def numeral_2_eq_2 eval_nat_numeral str_int_2)

lemma writable_two_five: "writable two_five_encoder"
  by (simp add: writable_def group_ok_def cells_fit_def cell_count_def obs_fit_def
      obs_total_def obs_count_def two_five_encoder_def numeral_2_eq_2)

section \<open>The claims\<close>

text \<open>
  Claim C1. For a construction input whose observation counts are one per group,
  not negative and sum to \<open>nqtfb\<close>, with \<open>nqtfb\<close> names, and whose groups fit the
  allocated width, \<^verbatim>\<open>write_file\<close> returns, the loop over the groups ends with the
  cursor at \<open>sum(nqobfb)\<close>, and the observation records of the primary file are
  exactly the records of the flattened indices \<open>0, 1, \<dots>, nqtfb - 1\<close> in this order:
  the cursor runs through the flattened arrays once, across the groups.
\<close>

theorem obs_records_sequential:
  assumes "construct path a = Inr e"
    and "sum_list (arg_nqobfb a) = arg_nqtfb a"
    and "length (arg_nqobfb a) = nat (arg_nqfb a)"
    and "list_all (\<lambda>n. 0 \<le> n) (arg_nqobfb a)"
    and "length (arg_obsnam a) = nat (arg_nqtfb a)"
    and "width_covers a"
  shows "\<exists>w. write_file e = Inr w \<and>
    write_groups e [0..<nat (nqfb e)] 0 =
      Inr (drop 3 (primary_lines w), nat (sum_list (arg_nqobfb a)), encoder_after w) \<and>
    filter is_obs (primary_lines w) = map (obs_line e) [0..<nat (arg_nqtfb a)] \<and>
    length (filter is_obs (primary_lines w)) = nat (arg_nqtfb a)"
proof -
  from construct_writable [OF assms(1,3,4,2,5,6)]
  have wr: "writable e" and ag: "counts_agree e" and f: "nqtfb e = arg_nqtfb a"
    by simp_all
  have tot: "obs_total e (groups e) = nat (arg_nqtfb a)"
    using obs_total_all [OF ag] f by simp
  from wr have ok: "list_all (group_ok e) (groups e)"
    and fit: "obs_fit e (0 + obs_total e (groups e))"
    by (simp_all add: writable_def groups_def)
  have g: "write_groups e [0..<nat (nqfb e)] 0 =
      Inr (groups_lines e (groups e) 0, nat (sum_list (arg_nqobfb a)), after_write e)"
    using write_groups_ok [OF ok fit] tot assms(2)
    by (simp add: groups_def after_write_def)
  have obs: "filter is_obs (header_lines e @ groups_lines e (groups e) 0) =
      map (obs_line e) [0..<nat (arg_nqtfb a)]"
    by (simp only: obs_of_file tot)
  have len: "length (filter is_obs (header_lines e @ groups_lines e (groups e) 0)) =
      nat (arg_nqtfb a)"
    by (simp only: obs length_map length_upt diff_zero)
  have d: "drop 3 (header_lines e @ groups_lines e (groups e) 0) = groups_lines e (groups e) 0"
    by (simp add: header_lines_def)
  show ?thesis
    using write_file_ok [OF wr] g obs len d by simp
qed

theorem obs_records_sequential_witness:
  "construct ''model.chob'' sample_args = Inr sample_encoder \<and>
   sum_list (arg_nqobfb sample_args) = arg_nqtfb sample_args \<and>
   arg_nqobfb sample_args = [2, 1] \<and> arg_nqtfb sample_args = 3 \<and>
   write_file sample_encoder = Inr sample_written \<and>
   write_groups sample_encoder [0..<nat (nqfb sample_encoder)] 0 =
     Inr (drop 3 (primary_lines sample_written), 3, encoder_after sample_written) \<and>
   filter is_obs (primary_lines sample_written) =
     [Section4 ''o1'' 1 0 5, Section4 ''o2'' 1 1 6, Section4 ''o3'' 2 0 7] \<and>
   length (filter is_obs (primary_lines sample_written)) = 3"
proof -
  have h: "sum_list (arg_nqobfb sample_args) = arg_nqtfb sample_args"
    "length (arg_nqobfb sample_args) = nat (arg_nqfb sample_args)"
    "list_all (\<lambda>n. 0 \<le> n) (arg_nqobfb sample_args)"
    "length (arg_obsnam sample_args) = nat (arg_nqtfb sample_args)"
    by (simp_all add: sample_args_def)
  have v: "arg_nqobfb sample_args = [2, 1]" "arg_nqtfb sample_args = 3"
    by (simp_all add: sample_args_def)
  from obs_records_sequential [OF construct_sample h width_covers_sample]
  obtain w where w: "write_file sample_encoder = Inr w"
    and g: "write_groups sample_encoder [0..<nat (nqfb sample_encoder)] 0 =
      Inr (drop 3 (primary_lines w), nat (sum_list (arg_nqobfb sample_args)), encoder_after w)"
    and n: "length (filter is_obs (primary_lines w)) = nat (arg_nqtfb sample_args)"
    by blast
  from w have eq: "w = sample_written" by (simp add: write_sample)
  have lines: "filter is_obs (primary_lines sample_written) =
     [Section4 ''o1'' 1 0 5, Section4 ''o2'' 1 1 6, Section4 ''o3'' 2 0 7]"
    by (simp add: sample_written_def)
  from g n have "write_groups sample_encoder [0..<nat (nqfb sample_encoder)] 0 =
     Inr (drop 3 (primary_lines sample_written), 3, encoder_after sample_written)"
    "length (filter is_obs (primary_lines sample_written)) = 3"
    by (simp_all add: eq v)
  with construct_sample h(1) v write_sample lines show ?thesis by blast
qed

text \<open>
  Claim C2. On an encoder whose arrays hold what \<^verbatim>\<open>write_file\<close> reads, the call
  returns; the path of the instruction file is the path of the primary file
  followed by \<^verbatim>\<open>_ins\<close>; its records are the marker line, the
  \<^verbatim>\<open>StandardFile\<close> line with \<open>nqtfb\<close> in decimal, and then the first \<open>nqtfb\<close>
  names, one per record, \<open>nqtfb\<close> records in all. When the observation counts
  sum to \<open>nqtfb\<close>, these are the names of the observation records of the primary
  file, in the same order.
\<close>

theorem instruction_file_names:
  assumes "writable e"
  shows "\<exists>w. write_file e = Inr w \<and>
    ins_path w = primary_path w @ ''_ins'' \<and>
    ins_lines w =
      (''jif @'' @ newline) # (''StandardFile 0 1 '' @ str_int (nqtfb e) @ newline)
      # map (\<lambda>nm. nm @ newline) (take (nat (nqtfb e)) (obsnam e)) \<and>
    length (drop 2 (ins_lines w)) = nat (nqtfb e) \<and>
    (counts_agree e \<longrightarrow>
      List.map_filter obs_name (primary_lines w) = take (nat (nqtfb e)) (obsnam e))"
proof -
  from assms have nm: "nat (nqtfb e) \<le> length (obsnam e)"
    by (simp add: writable_def)
  have names: "List.map_filter obs_name (header_lines e @ groups_lines e (groups e) 0) =
      take (nat (nqtfb e)) (obsnam e)" if ag: "counts_agree e"
  proof -
    have "List.map_filter obs_name (header_lines e @ groups_lines e (groups e) 0) =
        List.map_filter obs_name (map (obs_line e) [0..<obs_total e (groups e)])"
      by (subst map_filter_via_filter) (simp only: obs_of_file)
    also have "\<dots> = map (\<lambda>k. obsnam e ! k) [0..<nat (nqtfb e)]"
      by (simp only: obs_names_map obs_total_all [OF ag])
    also have "\<dots> = take (nat (nqtfb e)) (obsnam e)"
      by (rule nth_upto_take [OF nm])
    finally show ?thesis .
  qed
  show ?thesis
    using write_file_ok [OF assms] nm names by (simp add: ins_header_def)
qed

theorem instruction_file_names_witness:
  "writable sample_encoder \<and> counts_agree sample_encoder \<and>
   write_file sample_encoder = Inr sample_written \<and>
   ins_path sample_written = primary_path sample_written @ ''_ins'' \<and>
   ins_lines sample_written =
     [''jif @'' @ newline, ''StandardFile 0 1 3'' @ newline,
      ''o1'' @ newline, ''o2'' @ newline, ''o3'' @ newline] \<and>
   List.map_filter obs_name (primary_lines sample_written) = [''o1'', ''o2'', ''o3'']"
proof -
  have ag: "counts_agree sample_encoder"
    by (simp add: counts_agree_def sample_encoder_def)
  from instruction_file_names [OF writable_sample]
  obtain w where w: "write_file sample_encoder = Inr w"
    and p: "ins_path w = primary_path w @ ''_ins''"
    and n: "counts_agree sample_encoder \<longrightarrow>
      List.map_filter obs_name (primary_lines w) =
        take (nat (nqtfb sample_encoder)) (obsnam sample_encoder)"
    by blast
  from w have eq: "w = sample_written" by (simp add: write_sample)
  have t: "take (nat (nqtfb sample_encoder)) (obsnam sample_encoder) = [''o1'', ''o2'', ''o3'']"
    by (simp add: sample_encoder_def)
  have l: "ins_lines sample_written =
     [''jif @'' @ newline, ''StandardFile 0 1 3'' @ newline,
      ''o1'' @ newline, ''o2'' @ newline, ''o3'' @ newline]"
    by (simp add: sample_written_def)
  from n ag have "List.map_filter obs_name (primary_lines sample_written) = [''o1'', ''o2'', ''o3'']"
    by (simp only: eq t)
  with writable_sample ag write_sample p l show ?thesis by (simp only: eq)
qed

text \<open>
  Claim C3. On an encoder whose arrays hold what \<^verbatim>\<open>write_file\<close> reads, whatever
  its factors are, the cell records of a group with a negative flag carry the
  factor 1: the factor fields of the block of group \<open>i\<close> are \<open>abs(nqclfb[i])\<close>
  times 1.
\<close>

theorem negative_flag_factor_one:
  assumes "writable e" and "i < nat (nqfb e)" and "nqclfb e ! i < 0"
  shows "\<exists>w. write_file e = Inr w \<and>
    List.map_filter cell_factor (group_blocks_of (primary_lines w) ! i) =
      replicate (nat \<bar>nqclfb e ! i\<bar>) 1"
proof -
  have "List.map_filter cell_factor
      (group_blocks_of (header_lines e @ groups_lines e (groups e) 0) ! i) =
      map (\<lambda>j. 1) [0..<cell_count e i]"
    using assms(3) by (simp only: block_of_group [OF assms(2)] cell_factors_group if_True)
  also have "\<dots> = replicate (nat \<bar>nqclfb e ! i\<bar>) 1"
    by (simp add: map_replicate_const cell_count_def)
  finally show ?thesis
    using write_file_ok [OF assms(1)] by simp
qed

theorem negative_flag_factor_one_witness:
  "writable sample_encoder \<and> nqclfb sample_encoder ! 0 = - 3 \<and>
   factor sample_encoder ! 0 = [2 / 10, 5 / 10, 9 / 10] \<and>
   write_file sample_encoder = Inr sample_written \<and>
   List.map_filter cell_factor (group_blocks_of (primary_lines sample_written) ! 0) = [1, 1, 1]"
proof -
  have i: "0 < nat (nqfb sample_encoder)" and q: "nqclfb sample_encoder ! 0 < 0"
    and v: "nqclfb sample_encoder ! 0 = - 3"
      "factor sample_encoder ! 0 = [2 / 10, 5 / 10, 9 / 10]"
    by (simp_all add: sample_encoder_def)
  from negative_flag_factor_one [OF writable_sample i q]
  obtain w where w: "write_file sample_encoder = Inr w"
    and f: "List.map_filter cell_factor (group_blocks_of (primary_lines w) ! 0) =
      replicate (nat \<bar>nqclfb sample_encoder ! 0\<bar>) 1"
    by blast
  from w have eq: "w = sample_written" by (simp add: write_sample)
  have r: "replicate (nat \<bar>nqclfb sample_encoder ! 0\<bar>) (1::rat) = [1, 1, 1]"
    by (simp add: v numeral_3_eq_3)
  from f have "List.map_filter cell_factor (group_blocks_of (primary_lines sample_written) ! 0) =
      [1, 1, 1]"
    by (simp only: eq r)
  with writable_sample v write_sample show ?thesis by blast
qed

text \<open>
  Claim C4. The padded width should be the maximum of \<open>abs(nqclfb[i])\<close>. The
  constructor takes \<^verbatim>\<open>max(self.nqclfb)\<close>, without the absolute value that the
  documentation of \<^verbatim>\<open>nqclfb\<close> and the cell loop of \<^verbatim>\<open>write_file\<close> use. A single
  group with the flag \<open>-3\<close> and its three cells cannot be constructed
  (\<^verbatim>\<open>np.zeros\<close> is given the width \<open>-3\<close>); with the flags \<open>-3\<close> and \<open>2\<close> the width is 2
  and the copy of the three cells raises; with the flags \<open>-1\<close> and \<open>0\<close> the
  encoder is constructed with rows of width 0, the cell of the first group is not
  stored, and \<^verbatim>\<open>write_file\<close> raises \<^verbatim>\<open>IndexError\<close>.
\<close>

theorem width_ignores_absolute_value:
  "construct ''model.chob'' negative_only_args = Inl ValueError \<and>
   construct ''model.chob''
     (sample_args\<lparr>arg_nqclfb := [- 3, 2], arg_layer := [[1, 1, 1], [2, 2]],
        arg_row := [[1, 2, 3], [4, 5]], arg_column := [[7, 8, 9], [1, 2]],
        arg_factor := [[2 / 10, 5 / 10, 9 / 10], [1, 5 / 10]]\<rparr>) = Inl ValueError \<and>
   construct ''model.chob'' negative_one_args = Inr negative_one_encoder \<and>
   layer negative_one_encoder = [[], []] \<and>
   write_file negative_one_encoder = Inl IndexError"
proof -
  have a: "construct ''model.chob'' negative_only_args = Inl ValueError"
    by (simp add: construct_def negative_only_args_def select_default_CHD py_max_def
        zeros2_def)
  have b: "construct ''model.chob''
     (sample_args\<lparr>arg_nqclfb := [- 3, 2], arg_layer := [[1, 1, 1], [2, 2]],
        arg_row := [[1, 2, 3], [4, 5]], arg_column := [[7, 8, 9], [1, 2]],
        arg_factor := [[2 / 10, 5 / 10, 9 / 10], [1, 5 / 10]]\<rparr>) = Inl ValueError"
    by (simp add: construct_def sample_args_def select_chd_lower select_default_CHD
        py_max_def zeros2_def zeros1_def assign_all_def assign_row_def assign_prefix_def
        getitem_def numeral_2_eq_2 upt_rec [of 0])
  have c: "construct ''model.chob'' negative_one_args = Inr negative_one_encoder"
    by (simp add: construct_def negative_one_args_def negative_one_encoder_def
        select_default_CHD py_max_def zeros2_def zeros1_def assign_all_def assign_row_def
        assign_prefix_def getitem_def numeral_2_eq_2 upt_rec [of 0])
  have d: "layer negative_one_encoder = [[], []]"
    by (simp add: negative_one_encoder_def)
  have e: "write_file negative_one_encoder = Inl IndexError"
    by (simp add: write_file_def write_group_def set_factor_row_def getitem_def
        getitem2_def negative_one_encoder_def numeral_2_eq_2)
  from a b c d e show ?thesis by blast
qed

text \<open>
  Claim C5. On an encoder whose arrays hold what \<^verbatim>\<open>write_file\<close> reads, the primary
  file has one block per group, and the block of group \<open>i\<close> has exactly
  \<open>abs(nqclfb[i])\<close> cell records, whatever the padded width of the storage.
\<close>

theorem cell_lines_per_group:
  assumes "writable e"
  shows "\<exists>w. write_file e = Inr w \<and>
    length (group_blocks_of (primary_lines w)) = nat (nqfb e) \<and>
    (\<forall>i<nat (nqfb e).
       length (filter is_cell (group_blocks_of (primary_lines w) ! i)) = nat \<bar>nqclfb e ! i\<bar>)"
proof -
  have n: "length (group_blocks_of (header_lines e @ groups_lines e (groups e) 0)) =
      nat (nqfb e)"
    by (simp add: blocks_of_file groups_def)
  have c: "length (filter is_cell
      (group_blocks_of (header_lines e @ groups_lines e (groups e) 0) ! i)) =
      nat \<bar>nqclfb e ! i\<bar>" if "i < nat (nqfb e)" for i
    by (simp add: block_of_group [OF that] filter_cell_group cell_count_def)
  show ?thesis
    using write_file_ok [OF assms] n c by simp
qed

theorem cell_lines_per_group_witness:
  "writable two_five_encoder \<and> nqclfb two_five_encoder = [2, 5] \<and>
   map length (layer two_five_encoder) = [5, 5] \<and>
   write_file two_five_encoder = Inr two_five_written \<and>
   length (group_blocks_of (primary_lines two_five_written)) = 2 \<and>
   length (filter is_cell (group_blocks_of (primary_lines two_five_written) ! 0)) = 2 \<and>
   length (filter is_cell (group_blocks_of (primary_lines two_five_written) ! 1)) = 5"
proof -
  have v: "nqclfb two_five_encoder = [2, 5]" "map length (layer two_five_encoder) = [5, 5]"
    "nat (nqfb two_five_encoder) = 2"
    by (simp_all add: two_five_encoder_def)
  from cell_lines_per_group [OF writable_two_five]
  obtain w where w: "write_file two_five_encoder = Inr w"
    and n: "length (group_blocks_of (primary_lines w)) = nat (nqfb two_five_encoder)"
    and c: "\<forall>i<nat (nqfb two_five_encoder).
       length (filter is_cell (group_blocks_of (primary_lines w) ! i)) =
         nat \<bar>nqclfb two_five_encoder ! i\<bar>"
    by blast
  from w have eq: "w = two_five_written" by (simp add: write_two_five)
  from c have "length (filter is_cell (group_blocks_of (primary_lines w) ! 0)) =
      nat \<bar>nqclfb two_five_encoder ! 0\<bar>"
    "length (filter is_cell (group_blocks_of (primary_lines w) ! 1)) =
      nat \<bar>nqclfb two_five_encoder ! 1\<bar>"
    by (simp_all add: v)
  then have "length (filter is_cell (group_blocks_of (primary_lines two_five_written) ! 0)) = 2"
    "length (filter is_cell (group_blocks_of (primary_lines two_five_written) ! 1)) = 5"
    by (simp_all add: eq v)
  moreover from n have "length (group_blocks_of (primary_lines two_five_written)) = 2"
    by (simp add: eq v)
  ultimately show ?thesis
    using writable_two_five v write_two_five by blast
qed

text \<open>
  Claim C6. The tag is matched after \<^verbatim>\<open>upper\<close> and \<^verbatim>\<open>strip\<close>: surrounding white
  space and the case of the letters do not change what the constructor does. A tag
  that matches \<^verbatim>\<open>CHD\<close>, with the default tables, gives the names CHOB and DATA, the
  extensions chob and obc, the unit numbers 40 and 140, and the output unit 140.
\<close>

theorem flowtype_tag_normalised:
  assumes "list_all is_space pre" and "list_all is_space post" and "upper t = upper t'"
  shows "construct path (a\<lparr>arg_flowtype := Some (pre @ t @ post)\<rparr>) =
      construct path (a\<lparr>arg_flowtype := Some t'\<rparr>) \<and>
    (t' = ''CHD'' \<and> arg_extension a = default_extension \<and>
     arg_unitnumber a = default_unitnumber \<longrightarrow>
     (\<forall>e. construct path (a\<lparr>arg_flowtype := Some (pre @ t @ post)\<rparr>) = Inr e \<longrightarrow>
        name e = [''CHOB'', ''DATA''] \<and> extension e = [''chob'', ''obc''] \<and>
        unit_number e = [40, 140] \<and> iufbobsv e = 140))"
proof -
  have same: "construct path (a\<lparr>arg_flowtype := Some (pre @ t @ post)\<rparr>) =
      construct path (a\<lparr>arg_flowtype := Some t'\<rparr>)"
    by (rule construct_flowtype) (rule select_padded [OF assms])
  have meta: "name e = [''CHOB'', ''DATA''] \<and> extension e = [''chob'', ''obc''] \<and>
        unit_number e = [40, 140] \<and> iufbobsv e = 140"
    if t': "t' = ''CHD''" and tab: "arg_extension a = default_extension"
      "arg_unitnumber a = default_unitnumber"
      and e: "construct path (a\<lparr>arg_flowtype := Some (pre @ t @ post)\<rparr>) = Inr e" for e
  proof -
    from e same t' have "construct path (a\<lparr>arg_flowtype := Some ''CHD''\<rparr>) = Inr e"
      by simp
    from construct_result [OF this] tab show ?thesis
      by (auto simp: select_default_CHD)
  qed
  from same meta show ?thesis by blast
qed

theorem flowtype_tag_normalised_witness:
  "list_all is_space [] \<and> list_all is_space '' '' \<and> upper ''chd'' = upper ''CHD'' \<and>
   construct ''model.chob'' sample_args =
     construct ''model.chob'' (sample_args\<lparr>arg_flowtype := Some ''CHD''\<rparr>) \<and>
   construct ''model.chob'' sample_args = Inr sample_encoder \<and>
   name sample_encoder = [''CHOB'', ''DATA''] \<and> extension sample_encoder = [''chob'', ''obc''] \<and>
   unit_number sample_encoder = [40, 140] \<and> iufbobsv sample_encoder = 140"
proof -
  have sp: "list_all is_space []" "list_all is_space '' ''"
    by (simp_all add: is_space_def)
  have up: "upper ''chd'' = upper ''CHD''"
    by (simp add: upper_def upper_char_def)
  have tag: "sample_args\<lparr>arg_flowtype := Some ([] @ ''chd'' @ '' '')\<rparr> = sample_args"
    by (simp add: sample_args_def)
  have tab: "arg_extension sample_args = default_extension"
    "arg_unitnumber sample_args = default_unitnumber"
    by (simp_all add: sample_args_def)
  note inst = flowtype_tag_normalised [OF sp up, of "''model.chob''" sample_args,
      unfolded tag]
  from inst have same: "construct ''model.chob'' sample_args =
      construct ''model.chob'' (sample_args\<lparr>arg_flowtype := Some ''CHD''\<rparr>)"
    by (rule conjunct1)
  from inst tab construct_sample
  have meta: "name sample_encoder = [''CHOB'', ''DATA''] \<and>
      extension sample_encoder = [''chob'', ''obc''] \<and>
      unit_number sample_encoder = [40, 140] \<and> iufbobsv sample_encoder = 140"
    by blast
  from sp up same construct_sample meta show ?thesis by blast
qed

text \<open>
  Claim C7. A tag outside the four recognized ones should be rejected with an error
  that names it. The chain of comparisons has no final branch (the source carries
  the note "add else here and give an error if there is no match"): for the tag
  \<^verbatim>\<open>XYZ\<close>, whatever the other arguments, the constructor stops with the
  \<^verbatim>\<open>UnboundLocalError\<close> of the unbound local \<^verbatim>\<open>name\<close>.
\<close>

theorem unknown_flowtype_unbound:
  "construct path (a\<lparr>arg_flowtype := Some ''XYZ''\<rparr>) = Inl UnboundLocalError"
  by (simp add: construct_def select_flowtype_def strip_upper_XYZ)

text \<open>
  Claim C8. Shape inconsistencies should be reported by the constructor. The
  constructor checks none of the three kinds (the source notes "add checks for
  input compliance (obsnam length, etc.)"): with one name for three observations
  the encoder is constructed and \<^verbatim>\<open>write_file\<close> raises \<^verbatim>\<open>IndexError\<close>; with counts
  that sum to 2 for \<open>nqtfb = 3\<close> the encoder is constructed and \<^verbatim>\<open>write_file\<close>
  returns, with two observation records under a header that announces three;
  with one layer index for a group of three cells the encoder is constructed and
  the missing indices are stored as 0.
\<close>

theorem shape_mismatch_not_detected:
  "construct ''model.chob'' (sample_args\<lparr>arg_obsnam := [''o1'']\<rparr>) =
     Inr (sample_encoder\<lparr>obsnam := [''o1'']\<rparr>) \<and>
   write_file (sample_encoder\<lparr>obsnam := [''o1'']\<rparr>) = Inl IndexError \<and>
   construct ''model.chob'' (sample_args\<lparr>arg_nqobfb := [1, 1]\<rparr>) =
     Inr (sample_encoder\<lparr>nqobfb := [1, 1]\<rparr>) \<and>
   (\<exists>w. write_file (sample_encoder\<lparr>nqobfb := [1, 1]\<rparr>) = Inr w \<and>
      primary_lines w ! 1 = Section1 2 5 3 140 \<and>
      filter is_obs (primary_lines w) = [Section4 ''o1'' 1 0 5, Section4 ''o2'' 1 1 6]) \<and>
   construct ''model.chob'' (sample_args\<lparr>arg_layer := [[1], [2, 2, 2]]\<rparr>) =
     Inr (sample_encoder\<lparr>layer := [[1, 0, 0], [2, 2, 2]]\<rparr>)"
proof -
  have a: "construct ''model.chob'' (sample_args\<lparr>arg_obsnam := [''o1'']\<rparr>) =
     Inr (sample_encoder\<lparr>obsnam := [''o1'']\<rparr>)"
    by (simp add: construct_def sample_args_def sample_encoder_def select_chd_lower
      select_default_CHD py_max_def zeros2_def zeros1_def assign_all_def assign_row_def
      assign_prefix_def getitem_def numeral_2_eq_2 upt_rec [of 0])
  have b: "write_file (sample_encoder\<lparr>obsnam := [''o1'']\<rparr>) = Inl IndexError"
    by (simp add: write_file_def write_group_def set_factor_row_def getitem_def getitem2_def
      sample_encoder_def numeral_2_eq_2 numeral_3_eq_3)
  have c: "construct ''model.chob'' (sample_args\<lparr>arg_nqobfb := [1, 1]\<rparr>) =
     Inr (sample_encoder\<lparr>nqobfb := [1, 1]\<rparr>)"
    by (simp add: construct_def sample_args_def sample_encoder_def select_chd_lower
      select_default_CHD py_max_def zeros2_def zeros1_def assign_all_def assign_row_def
      assign_prefix_def getitem_def numeral_2_eq_2 upt_rec [of 0])
  have d: "\<exists>w. write_file (sample_encoder\<lparr>nqobfb := [1, 1]\<rparr>) = Inr w \<and>
      primary_lines w ! 1 = Section1 2 5 3 140 \<and>
      filter is_obs (primary_lines w) = [Section4 ''o1'' 1 0 5, Section4 ''o2'' 1 1 6]"
    by (simp add: write_file_def write_group_def set_factor_row_def getitem_def getitem2_def
      sample_encoder_def numeral_2_eq_2 numeral_3_eq_3)
  have e: "construct ''model.chob'' (sample_args\<lparr>arg_layer := [[1], [2, 2, 2]]\<rparr>) =
     Inr (sample_encoder\<lparr>layer := [[1, 0, 0], [2, 2, 2]]\<rparr>)"
    by (simp add: construct_def sample_args_def sample_encoder_def select_chd_lower
      select_default_CHD py_max_def zeros2_def zeros1_def assign_all_def assign_row_def
      assign_prefix_def getitem_def numeral_2_eq_2 upt_rec [of 0])
  from a b c d e show ?thesis by blast
qed

text \<open>
  Claim C9. On an encoder whose arrays hold what \<^verbatim>\<open>write_file\<close> reads, a second
  call on the encoder left by the first returns the same two files and leaves the
  encoder as it is. The first call changes the factor array only: the rows of the
  groups with a negative flag become rows of 1, every other row is kept.
\<close>

theorem write_file_twice:
  assumes "writable e"
  shows "\<exists>w. write_file e = Inr w \<and> write_file (encoder_after w) = Inr w \<and>
    encoder_after w = e\<lparr>factor := factor (encoder_after w)\<rparr> \<and>
    length (factor (encoder_after w)) = length (factor e) \<and>
    (\<forall>i<length (factor e).
       factor (encoder_after w) ! i =
         (if i < nat (nqfb e) \<and> nqclfb e ! i < 0
          then replicate (length (factor e ! i)) 1 else factor e ! i))"
proof -
  define w where "w =
    \<lparr>encoder_after = after_write e, primary_path = fn_path e,
     primary_lines = header_lines e @ groups_lines e (groups e) 0,
     ins_path = fn_path e @ ''_ins'',
     ins_lines = ins_header e @ map (\<lambda>nm. nm @ newline) (take (nat (nqtfb e)) (obsnam e))\<rparr>"
  have first: "write_file e = Inr w"
    using write_file_ok [OF assms] by (simp only: w_def)
  have second: "write_file (encoder_after w) = Inr w"
    using write_file_ok [OF writable_after [OF assms]]
    by (simp add: w_def lines_after after_write_idem)
  have upd: "encoder_after w = e\<lparr>factor := factor (encoder_after w)\<rparr>"
    by (simp add: w_def after_write_def)
  have len: "length (factor (encoder_after w)) = length (factor e)"
    by (simp add: w_def after_write_def)
  have rows: "factor (encoder_after w) ! i =
      (if i < nat (nqfb e) \<and> nqclfb e ! i < 0
       then replicate (length (factor e ! i)) 1 else factor e ! i)"
    if "i < length (factor e)" for i
    using that by (simp add: w_def after_write_def reset_rows_nth groups_def)
  from first second upd len rows show ?thesis by blast
qed

theorem write_file_twice_witness:
  "writable sample_encoder \<and> write_file sample_encoder = Inr sample_written \<and>
   write_file (encoder_after sample_written) = Inr sample_written \<and>
   factor sample_encoder = [[2 / 10, 5 / 10, 9 / 10], [1, 5 / 10, 0]] \<and>
   factor (encoder_after sample_written) = [[1, 1, 1], [1, 5 / 10, 0]]"
proof -
  from write_file_twice [OF writable_sample]
  obtain w where w: "write_file sample_encoder = Inr w"
    and again: "write_file (encoder_after w) = Inr w"
    by blast
  from w have eq: "w = sample_written" by (simp add: write_sample)
  have f: "factor sample_encoder = [[2 / 10, 5 / 10, 9 / 10], [1, 5 / 10, 0]]"
    "factor (encoder_after sample_written) = [[1, 1, 1], [1, 5 / 10, 0]]"
    by (simp_all add: sample_encoder_def sample_written_def)
  from again have "write_file (encoder_after sample_written) = Inr sample_written"
    by (simp only: eq)
  with writable_sample write_sample f show ?thesis by blast
qed

text \<open>
  Claim C10. With an empty list \<^verbatim>\<open>nqclfb\<close> the constructor always raises, and
  never returns an encoder; when the tag is recognized and the tables are long
  enough, so that the selection succeeds, the exception is the \<^verbatim>\<open>ValueError\<close> of
  \<^verbatim>\<open>max\<close> on an empty sequence. A constructed encoder therefore has at least one
  entry in \<^verbatim>\<open>nqclfb\<close>.
\<close>

theorem empty_nqclfb_fails:
  assumes "arg_nqclfb a = []"
  shows "(\<exists>err. construct path a = Inl err) \<and>
    (\<forall>m. select_flowtype (arg_flowtype a) (arg_extension a) (arg_unitnumber a) = Inr m
       \<longrightarrow> construct path a = Inl ValueError)"
  using assms by (simp add: construct_def py_max_def split: sum.splits)

theorem empty_nqclfb_fails_witness:
  "arg_nqclfb default_args = [] \<and> construct ''model.chob'' default_args = Inl ValueError"
  using empty_nqclfb_fails [of default_args "''model.chob''"]
  by (simp add: default_args_def select_default_CHD)

end
